theory Spec2Isabelle
  imports Main
begin

section \<open>JavaScript values used by \<^verbatim>\<open>src/server/mastra.ts\<close>\<close>

text \<open>
  Strings are byte lists: an ASCII literal of the source is written as it stands, and the
  two Japanese literals are spelled out as their UTF-8 bytes. The source never measures
  a string; it only tests emptiness (truthiness), concatenates and compares, and these
  do not depend on the encoding.

  A value of type \<open>string option\<close> is a JavaScript value that is either a string or
  \<^verbatim>\<open>undefined\<close> (\<open>None\<close>): the result of an optional chain such as
  \<^verbatim>\<open>context.context?.triggerData?.query\<close>.
\<close>

definition truthy :: "string option \<Rightarrow> bool" where
  "truthy v = (case v of None \<Rightarrow> False | Some s \<Rightarrow> s \<noteq> [])"

text \<open>\<^verbatim>\<open>a || b\<close>: the left operand when it is truthy, the right one otherwise.\<close>

definition js_or :: "string option \<Rightarrow> string option \<Rightarrow> string option" where
  "js_or a b = (if truthy a then a else b)"

text \<open>\<^verbatim>\<open>${v}\<close> inside a template literal.\<close>

definition template_string :: "string option \<Rightarrow> string" where
  "template_string v = (case v of None \<Rightarrow> ''undefined'' | Some s \<Rightarrow> s)"

text \<open>
  What a \<^verbatim>\<open>throw\<close> (or a rejected promise) can carry, as far as the source tells
  the cases apart: \<^verbatim>\<open>error instanceof Error\<close> (line 258) and
  \<^verbatim>\<open>error.message\<close> (lines 168 and 258).
  \<^item> \<open>ErrorInstance m\<close>: an \<^verbatim>\<open>Error\<close> object whose message is \<open>m\<close>;
  \<^item> \<open>NonError m\<close>: any other non-nullish value, with its \<^verbatim>\<open>message\<close>
    property (\<open>None\<close> when it has none);
  \<^item> \<open>Nullish\<close>: \<^verbatim>\<open>null\<close> or \<^verbatim>\<open>undefined\<close>, on which a property read
    raises a \<^verbatim>\<open>TypeError\<close>.
\<close>

datatype js_thrown = ErrorInstance string | NonError "string option" | Nullish

definition type_error_message :: string where
  "type_error_message =
     ''Cannot read properties of undefined (reading '' @ [CHR 0x27] @ ''message'' @ [CHR 0x27] @ '')''"

text \<open>
  \<^verbatim>\<open>error.message\<close>: the property, or the \<^verbatim>\<open>TypeError\<close> of the read (with the
  text Node gives it for \<^verbatim>\<open>undefined\<close>; nothing below depends on the text).
\<close>

fun get_message :: "js_thrown \<Rightarrow> js_thrown + string option" where
  "get_message (ErrorInstance m) = Inr (Some m)"
| "get_message (NonError m) = Inr m"
| "get_message Nullish = Inl (ErrorInstance type_error_message)"

subsection \<open>\<^verbatim>\<open>JSON.stringify\<close> on a string\<close>

definition hex_digit :: "nat \<Rightarrow> char" where
  "hex_digit n = (if n < 10 then char_of (of_char CHR ''0'' + n)
                  else char_of (of_char CHR ''a'' + (n - 10)))"

text \<open>
  One character of the quoted form: the two-character escapes, \<^verbatim>\<open>\u00xx\<close> for the
  other control characters, and the character itself otherwise.
\<close>

definition quote_json_char :: "char \<Rightarrow> string" where
  "quote_json_char c =
     (if c = CHR 0x08 then [CHR 0x5C, CHR ''b'']
      else if c = CHR 0x09 then [CHR 0x5C, CHR ''t'']
      else if c = CHR 0x0A then [CHR 0x5C, CHR ''n'']
      else if c = CHR 0x0C then [CHR 0x5C, CHR ''f'']
      else if c = CHR 0x0D then [CHR 0x5C, CHR ''r'']
      else if c = CHR 0x22 then [CHR 0x5C, CHR 0x22]
      else if c = CHR 0x5C then [CHR 0x5C, CHR 0x5C]
      else if (of_char c :: nat) < 0x20
        then [CHR 0x5C, CHR ''u'', CHR ''0'', CHR ''0'',
              hex_digit (of_char c div 16), hex_digit (of_char c mod 16)]
      else [c])"

definition JSON_stringify :: "string \<Rightarrow> string" where
  "JSON_stringify s = [CHR 0x22] @ concat (map quote_json_char s) @ [CHR 0x22]"

section \<open>The environment of a run\<close>

text \<open>
  The external collaborators, as the values the source reads from them:
  \<^item> \<open>ANTHROPIC_API_KEY\<close>: \<^verbatim>\<open>process.env.ANTHROPIC_API_KEY\<close>;
  \<^item> \<open>generate\<close>: \<^verbatim>\<open>await webSearchAgent.generate([{role: 'user', content: q}])\<close>
    followed by \<^verbatim>\<open>result.text\<close>, as a function of \<open>q\<close>: the generated text (a
    string, as the agent's interface declares), or the value the call throws;
  \<^item> \<open>getTools\<close>: \<^verbatim>\<open>await mcp.getTools()\<close>: the tool names, or the value it throws.
  Logging (\<^verbatim>\<open>console.log\<close>, \<^verbatim>\<open>console.error\<close>) is left out.
\<close>

type_synonym tools = "string list"

record env =
  ANTHROPIC_API_KEY :: "string option"
  generate :: "string \<Rightarrow> js_thrown + string"
  getTools :: "js_thrown + tools"

section \<open>The execution context of a step\<close>

text \<open>
  A step's output is \<^verbatim>\<open>{query: ...}\<close> or \<^verbatim>\<open>{answer: ...}\<close>;
  \<open>output_query\<close> is the read \<^verbatim>\<open>output?.query\<close>.
\<close>

datatype step_output = QueryOutput string | AnswerOutput string

fun output_query :: "step_output \<Rightarrow> string option" where
  "output_query (QueryOutput q) = Some q"
| "output_query (AnswerOutput a) = None"

record trigger_data =
  query :: "string option"

record step_input =
  input_query :: "string option"

record step_result =
  result_output :: "step_output option"

text \<open>
  \<open>workflow_context\<close> is the object \<^verbatim>\<open>context.context\<close>: the trigger data, the
  results of the steps run so far, keyed by step id, and the per-step inputs the caller
  gave to \<^verbatim>\<open>start\<close> (the specification's step overrides). The first two may be
  absent, as the optional chains of the source allow.
\<close>

record workflow_context =
  triggerData :: "trigger_data option"
  steps :: "(string \<rightharpoonup> step_result) option"
  stepOverrides :: "string \<rightharpoonup> step_input"

record execution_context =
  inner_context :: "workflow_context option"

section \<open>The search step (lines 87-112)\<close>

definition no_query_search :: string where
  "no_query_search = ''No query provided, using default search''"

text \<open>Line 98: \<^verbatim>\<open>context.context?.triggerData?.query\<close>.\<close>

definition trigger_query :: "execution_context \<Rightarrow> string option" where
  "trigger_query c = Option.bind (Option.bind (inner_context c) triggerData) query"

definition searchStep_execute :: "execution_context \<Rightarrow> step_output" where
  "searchStep_execute c =
     (let searchQuery = trigger_query c
      in case searchQuery of
           None \<Rightarrow> QueryOutput no_query_search
         | Some q \<Rightarrow> if q = [] then QueryOutput no_query_search else QueryOutput q)"

section \<open>The process-results step (lines 115-172)\<close>

definition no_query_response :: string where
  "no_query_response = ''No query provided, using default response''"

definition canned_answer :: string where
  "canned_answer = [
     CHR 0xE3, CHR 0x81, CHR 0x93, CHR 0xE3, CHR 0x82, CHR 0x8C, CHR 0xE3, CHR 0x81, CHR 0xAF,
     CHR 0xE6, CHR 0x97, CHR 0xA5, CHR 0xE6, CHR 0x9C, CHR 0xAC, CHR 0xE3, CHR 0x81, CHR 0xAE,
     CHR 0xE9, CHR 0xA6, CHR 0x96, CHR 0xE9, CHR 0x83, CHR 0xBD, CHR 0xE3, CHR 0x81, CHR 0xAB,
     CHR 0xE9, CHR 0x96, CHR 0xA2, CHR 0xE3, CHR 0x81, CHR 0x99, CHR 0xE3, CHR 0x82, CHR 0x8B,
     CHR 0xE6, CHR 0x83, CHR 0x85, CHR 0xE5, CHR 0xA0, CHR 0xB1, CHR 0xE3, CHR 0x81, CHR 0xA7,
     CHR 0xE3, CHR 0x81, CHR 0x99, CHR 0xE3, CHR 0x80, CHR 0x82, CHR 0xE6, CHR 0x9D, CHR 0xB1,
     CHR 0xE4, CHR 0xBA, CHR 0xAC, CHR 0xE3, CHR 0x81, CHR 0xAF, CHR 0xE6, CHR 0x97, CHR 0xA5,
     CHR 0xE6, CHR 0x9C, CHR 0xAC, CHR 0xE3, CHR 0x81, CHR 0xAE, CHR 0xE9, CHR 0xA6, CHR 0x96,
     CHR 0xE9, CHR 0x83, CHR 0xBD, CHR 0xE3, CHR 0x81, CHR 0xA7, CHR 0xE3, CHR 0x81, CHR 0x82,
     CHR 0xE3, CHR 0x82, CHR 0x8A, CHR 0xE3, CHR 0x80, CHR 0x81, CHR 0xE4, CHR 0xB8, CHR 0x96,
     CHR 0xE7, CHR 0x95, CHR 0x8C, CHR 0xE6, CHR 0x9C, CHR 0x80, CHR 0xE5, CHR 0xA4, CHR 0xA7,
     CHR 0xE3, CHR 0x81, CHR 0xAE, CHR 0xE9, CHR 0x83, CHR 0xBD, CHR 0xE5, CHR 0xB8, CHR 0x82,
     CHR 0xE5, CHR 0x9C, CHR 0x8F, CHR 0xE3, CHR 0x81, CHR 0xAE, CHR 0xE4, CHR 0xB8, CHR 0x80,
     CHR 0xE3, CHR 0x81, CHR 0xA4, CHR 0xE3, CHR 0x81, CHR 0xA7, CHR 0xE3, CHR 0x81, CHR 0x99,
     CHR 0xE3, CHR 0x80, CHR 0x82, CHR 0xE4, CHR 0xBA, CHR 0xBA, CHR 0xE5, CHR 0x8F, CHR 0xA3,
     CHR 0xE3, CHR 0x81, CHR 0xAF, CHR 0xE7, CHR 0xB4, CHR 0x84, CHR 0x31, CHR 0x2C, CHR 0x34,
     CHR 0x30, CHR 0x30, CHR 0xE4, CHR 0xB8, CHR 0x87, CHR 0xE4, CHR 0xBA, CHR 0xBA, CHR 0xE3,
     CHR 0x81, CHR 0xA7, CHR 0xE3, CHR 0x80, CHR 0x81, CHR 0xE9, CHR 0x96, CHR 0xA2, CHR 0xE6,
     CHR 0x9D, CHR 0xB1, CHR 0xE5, CHR 0xB9, CHR 0xB3, CHR 0xE9, CHR 0x87, CHR 0x8E, CHR 0xE3,
     CHR 0x81, CHR 0xAB, CHR 0xE4, CHR 0xBD, CHR 0x8D, CHR 0xE7, CHR 0xBD, CHR 0xAE, CHR 0xE3,
     CHR 0x81, CHR 0x97, CHR 0xE3, CHR 0x81, CHR 0xA6, CHR 0xE3, CHR 0x81, CHR 0x84, CHR 0xE3,
     CHR 0x81, CHR 0xBE, CHR 0xE3, CHR 0x81, CHR 0x99, CHR 0xE3, CHR 0x80, CHR 0x82, CHR 0xE6,
     CHR 0x94, CHR 0xBF, CHR 0xE6, CHR 0xB2, CHR 0xBB, CHR 0xE3, CHR 0x80, CHR 0x81, CHR 0xE7,
     CHR 0xB5, CHR 0x8C, CHR 0xE6, CHR 0xB8, CHR 0x88, CHR 0xE3, CHR 0x80, CHR 0x81, CHR 0xE6,
     CHR 0x96, CHR 0x87, CHR 0xE5, CHR 0x8C, CHR 0x96, CHR 0xE3, CHR 0x81, CHR 0xAE, CHR 0xE4,
     CHR 0xB8, CHR 0xAD, CHR 0xE5, CHR 0xBF, CHR 0x83, CHR 0xE5, CHR 0x9C, CHR 0xB0, CHR 0xE3,
     CHR 0x81, CHR 0xA7, CHR 0xE3, CHR 0x81, CHR 0x82, CHR 0xE3, CHR 0x82, CHR 0x8A, CHR 0xE3,
     CHR 0x80, CHR 0x81, CHR 0xE5, CHR 0xA4, CHR 0x9A, CHR 0xE3, CHR 0x81, CHR 0x8F, CHR 0xE3,
     CHR 0x81, CHR 0xAE, CHR 0xE4, CHR 0xBC, CHR 0x81, CHR 0xE6, CHR 0xA5, CHR 0xAD, CHR 0xE3,
     CHR 0x82, CHR 0x84, CHR 0xE5, CHR 0xA4, CHR 0xA7, CHR 0xE5, CHR 0xAD, CHR 0xA6, CHR 0xE3,
     CHR 0x81, CHR 0x8C, CHR 0xE9, CHR 0x9B, CHR 0x86, CHR 0xE3, CHR 0x81, CHR 0xBE, CHR 0xE3,
     CHR 0x81, CHR 0xA3, CHR 0xE3, CHR 0x81, CHR 0xA6, CHR 0xE3, CHR 0x81, CHR 0x84, CHR 0xE3,
     CHR 0x81, CHR 0xBE, CHR 0xE3, CHR 0x81, CHR 0x99, CHR 0xE3, CHR 0x80, CHR 0x82, CHR 0x31,
     CHR 0x38, CHR 0x36, CHR 0x38, CHR 0xE5, CHR 0xB9, CHR 0xB4, CHR 0xE3, CHR 0x81, CHR 0xAB,
     CHR 0xE6, CHR 0xB1, CHR 0x9F, CHR 0xE6, CHR 0x88, CHR 0xB8, CHR 0xE3, CHR 0x81, CHR 0x8B,
     CHR 0xE3, CHR 0x82, CHR 0x89, CHR 0xE6, CHR 0x9D, CHR 0xB1, CHR 0xE4, CHR 0xBA, CHR 0xAC,
     CHR 0xE3, CHR 0x81, CHR 0xAB, CHR 0xE6, CHR 0x94, CHR 0xB9, CHR 0xE5, CHR 0x90, CHR 0x8D,
     CHR 0xE3, CHR 0x81, CHR 0x95, CHR 0xE3, CHR 0x82, CHR 0x8C, CHR 0xE3, CHR 0x80, CHR 0x81,
     CHR 0xE6, CHR 0x98, CHR 0x8E, CHR 0xE6, CHR 0xB2, CHR 0xBB, CHR 0xE7, CHR 0xB6, CHR 0xAD,
     CHR 0xE6, CHR 0x96, CHR 0xB0, CHR 0xE4, CHR 0xBB, CHR 0xA5, CHR 0xE9, CHR 0x99, CHR 0x8D,
     CHR 0xE3, CHR 0x80, CHR 0x81, CHR 0xE6, CHR 0x97, CHR 0xA5, CHR 0xE6, CHR 0x9C, CHR 0xAC,
     CHR 0xE3, CHR 0x81, CHR 0xAE, CHR 0xE9, CHR 0xA6, CHR 0x96, CHR 0xE9, CHR 0x83, CHR 0xBD,
     CHR 0xE3, CHR 0x81, CHR 0xA8, CHR 0xE3, CHR 0x81, CHR 0xAA, CHR 0xE3, CHR 0x82, CHR 0x8A,
     CHR 0xE3, CHR 0x81, CHR 0xBE, CHR 0xE3, CHR 0x81, CHR 0x97, CHR 0xE3, CHR 0x81, CHR 0x9F,
     CHR 0xE3, CHR 0x80, CHR 0x82]"

definition error_prefix :: string where
  "error_prefix = [
     CHR 0xE6, CHR 0xA4, CHR 0x9C, CHR 0xE7, CHR 0xB4, CHR 0xA2, CHR 0xE3, CHR 0x82, CHR 0xAF,
     CHR 0xE3, CHR 0x82, CHR 0xA8, CHR 0xE3, CHR 0x83, CHR 0xAA, CHR 0xE3, CHR 0x81, CHR 0xAE,
     CHR 0xE5, CHR 0x87, CHR 0xA6, CHR 0xE7, CHR 0x90, CHR 0x86, CHR 0xE4, CHR 0xB8, CHR 0xAD,
     CHR 0xE3, CHR 0x81, CHR 0xAB, CHR 0xE3, CHR 0x82, CHR 0xA8, CHR 0xE3, CHR 0x83, CHR 0xA9,
     CHR 0xE3, CHR 0x83, CHR 0xBC, CHR 0xE3, CHR 0x81, CHR 0x8C, CHR 0xE7, CHR 0x99, CHR 0xBA,
     CHR 0xE7, CHR 0x94, CHR 0x9F, CHR 0xE3, CHR 0x81, CHR 0x97, CHR 0xE3, CHR 0x81, CHR 0xBE,
     CHR 0xE3, CHR 0x81, CHR 0x97, CHR 0xE3, CHR 0x81, CHR 0x9F, CHR 0xE3, CHR 0x80, CHR 0x82,
     CHR 0xE5, CHR 0x88, CHR 0xA5, CHR 0xE3, CHR 0x81, CHR 0xAE, CHR 0xE3, CHR 0x82, CHR 0xAF,
     CHR 0xE3, CHR 0x82, CHR 0xA8, CHR 0xE3, CHR 0x83, CHR 0xAA, CHR 0xE3, CHR 0x82, CHR 0x92,
     CHR 0xE3, CHR 0x81, CHR 0x8A, CHR 0xE8, CHR 0xA9, CHR 0xA6, CHR 0xE3, CHR 0x81, CHR 0x97,
     CHR 0xE3, CHR 0x81, CHR 0x8F, CHR 0xE3, CHR 0x81, CHR 0xA0, CHR 0xE3, CHR 0x81, CHR 0x95,
     CHR 0xE3, CHR 0x81, CHR 0x84, CHR 0xE3, CHR 0x80, CHR 0x82, CHR 0xE3, CHR 0x82, CHR 0xA8,
     CHR 0xE3, CHR 0x83, CHR 0xA9, CHR 0xE3, CHR 0x83, CHR 0xBC, CHR 0xE8, CHR 0xA9, CHR 0xB3,
     CHR 0xE7, CHR 0xB4, CHR 0xB0, CHR 0x3A, CHR 0x20]"

text \<open>
  Line 126: \<^verbatim>\<open>context.context?.steps?.['search-step']?.output?.query\<close>.
\<close>

definition previous_step_query :: "execution_context \<Rightarrow> string option" where
  "previous_step_query c =
     Option.bind (Option.bind (Option.bind (Option.bind (inner_context c) steps)
       (\<lambda>m. m ''search-step'')) result_output) output_query"

text \<open>Lines 126-128: the query the step works on.\<close>

definition process_query :: "execution_context \<Rightarrow> string option" where
  "process_query c =
     (let previousStepQuery = previous_step_query c;
          triggerQuery = trigger_query c
      in js_or previousStepQuery triggerQuery)"

text \<open>Line 143: the credential is absent, empty or the placeholder.\<close>

definition invalid_api_key :: "env \<Rightarrow> bool" where
  "invalid_api_key e =
     (\<not> truthy (ANTHROPIC_API_KEY e) \<or> ANTHROPIC_API_KEY e = Some ''dummy-key'')"

text \<open>
  The result of a step is the list of contents it sent to the agent (one entry per call
  of \<^verbatim>\<open>generate\<close>) and either its output or the value it throws.
\<close>

type_synonym 'a effect = "string list \<times> (js_thrown + 'a)"

text \<open>
  Lines 139-170, the \<^verbatim>\<open>try\<close> block and its handler, for the query
  \<open>searchQuery\<close>. The handler reads \<^verbatim>\<open>error.message\<close>; when that read raises,
  the exception leaves the step.
\<close>

definition invoke_agent :: "env \<Rightarrow> string \<Rightarrow> step_output effect" where
  "invoke_agent e searchQuery =
     (if invalid_api_key e then ([], Inr (AnswerOutput canned_answer))
      else (case generate e searchQuery of
              Inr text \<Rightarrow> ([searchQuery], Inr (AnswerOutput (JSON_stringify text)))
            | Inl error \<Rightarrow>
                (case get_message error of
                   Inr m \<Rightarrow> ([searchQuery],
                             Inr (AnswerOutput (error_prefix @ template_string m)))
                 | Inl type_error \<Rightarrow> ([searchQuery], Inl type_error))))"

definition processResultsStep_execute :: "env \<Rightarrow> execution_context \<Rightarrow> step_output effect" where
  "processResultsStep_execute e c =
     (case process_query c of
        None \<Rightarrow> ([], Inr (AnswerOutput no_query_response))
      | Some searchQuery \<Rightarrow>
          if searchQuery = [] then ([], Inr (AnswerOutput no_query_response))
          else invoke_agent e searchQuery)"

section \<open>Steps, the workflow and the run driver\<close>

text \<open>
  A \<^verbatim>\<open>Step\<close> object: its id and its \<^verbatim>\<open>execute\<close> function. The process-results
  step closes over the agent; here it reads the agent's behaviour from the environment.
\<close>

record step =
  step_id :: string
  execute :: "env \<Rightarrow> execution_context \<Rightarrow> step_output effect"

definition searchStep :: step where
  "searchStep =
     \<lparr>step_id = ''search-step'', execute = (\<lambda>e c. ([], Inr (searchStep_execute c)))\<rparr>"

definition processResultsStep :: step where
  "processResultsStep =
     \<lparr>step_id = ''process-results-step'', execute = processResultsStep_execute\<rparr>"

record workflow =
  workflow_name :: string
  workflow_steps :: "step list"
  committed :: bool

text \<open>
  Lines 79-84 and 175-178: the workflow after
  \<^verbatim>\<open>webSearchWorkflow.step(searchStep).then(processResultsStep)\<close> and
  \<^verbatim>\<open>webSearchWorkflow.commit()\<close>.
\<close>

definition webSearchWorkflow :: workflow where
  "webSearchWorkflow =
     \<lparr>workflow_name = ''web-search-workflow'',
      workflow_steps = [searchStep, processResultsStep],
      committed = True\<rparr>"

text \<open>The argument of \<^verbatim>\<open>start\<close> (lines 232-251).\<close>

record start_args =
  start_triggerData :: "trigger_data option"
  start_input :: "step_input option"
  start_steps :: "string \<rightharpoonup> step_input"

text \<open>
  The run driver (\<^verbatim>\<open>workflow.createRun().start\<close>) belongs to the workflow library,
  which is not part of the source; its three definitions follow section 4.4 of the
  specification.
\<close>

text \<open>
  Modelled from the spec: the driver's write to the context store, which is missing
  from the source. After a step completes, its output is stored under the step's id,
  where the steps run later read it (line 126 reads it as
  \<^verbatim>\<open>steps['search-step'].output\<close>).
\<close>

definition record_output :: "workflow_context \<Rightarrow> string \<Rightarrow> step_output \<Rightarrow> workflow_context" where
  "record_output cs sid out =
     cs\<lparr>steps := Some ((case steps cs of None \<Rightarrow> Map.empty | Some m \<Rightarrow> m)
                          (sid \<mapsto> \<lparr>result_output = Some out\<rparr>))\<rparr>"

text \<open>
  Modelled from the spec: the driver's loop, which is missing from the source. The
  steps run in order, each on the context store as the steps before it left it; the
  result is the output of the last step; an exception that escapes a step ends the run
  and reaches the caller of \<^verbatim>\<open>start\<close>.
\<close>

fun run_steps ::
  "env \<Rightarrow> workflow_context \<Rightarrow> step_output option \<Rightarrow> step list \<Rightarrow> step_output option effect" where
  "run_steps e cs final [] = ([], Inr final)"
| "run_steps e cs final (s # ss) =
     (case execute s e \<lparr>inner_context = Some cs\<rparr> of
        (calls, Inl error) \<Rightarrow> (calls, Inl error)
      | (calls, Inr out) \<Rightarrow>
          (case run_steps e (record_output cs (step_id s) out) (Some out) ss of
             (calls', r) \<Rightarrow> (calls @ calls', r)))"

text \<open>
  Modelled from the spec: \<^verbatim>\<open>start\<close>, which is missing from the source. A workflow
  that is not committed is refused; otherwise a fresh context store is seeded from the
  trigger data and the per-step inputs of the caller, and the steps are run.
\<close>

definition start :: "env \<Rightarrow> workflow \<Rightarrow> start_args \<Rightarrow> step_output option effect" where
  "start e w args =
     (if \<not> committed w then ([], Inl (ErrorInstance ''WorkflowStateError''))
      else run_steps e
             \<lparr>triggerData = start_triggerData args, steps = Some Map.empty,
              stepOverrides = start_steps args\<rparr>
             None (workflow_steps w))"

section \<open>Lazy initialisation (lines 36-38, 41-71, 74-188, 191-204)\<close>

text \<open>
  In this section and the next two a call is followed to its end: a promise is an
  object with an identity and the outcome it settles with, which is the outcome the
  environment gives to tool provisioning. The module state holds the two cached
  promises; \<open>allocated\<close> numbers the promises created so far and \<open>calls\<close> records, for
  the statements about them, each call of \<^verbatim>\<open>initializeMastra\<close>, of
  \<^verbatim>\<open>createWebSearchAgent\<close> (with its caller) and of the agent's \<^verbatim>\<open>generate\<close>.
  The interleaving of calls at their awaits is the subject of the event loop further
  down.
\<close>

datatype 'a promise = Promise (promise_id: nat) (settled: "js_thrown + 'a")

datatype agent = Agent (agent_name: string) (agent_tools: tools)

record mastra =
  workflows :: "string \<rightharpoonup> workflow"

datatype caller = From_initializeMastra | From_getWebSearchAgent | From_outside

datatype call = Call_initializeMastra | Call_createWebSearchAgent caller | Call_generate string

record module_state =
  mastraPromise :: "mastra promise option"
  webSearchAgentPromise :: "agent promise option"
  allocated :: nat
  calls :: "call list"

definition initial_state :: module_state where
  "initial_state =
     \<lparr>mastraPromise = None, webSearchAgentPromise = None, allocated = 0, calls = []\<rparr>"

text \<open>Creating a promise that settles with \<open>r\<close>.\<close>

definition new_promise :: "js_thrown + 'a \<Rightarrow> module_state \<Rightarrow> 'a promise \<times> module_state" where
  "new_promise r st = (Promise (allocated st) r, st\<lparr>allocated := Suc (allocated st)\<rparr>)"

text \<open>
  Lines 41-71. The first argument says who calls; it only labels the record. The call
  fails when \<^verbatim>\<open>mcp.getTools()\<close> does; the constructors (\<^verbatim>\<open>new Agent\<close>, and
  \<^verbatim>\<open>new Workflow\<close>, \<^verbatim>\<open>new Step\<close>, \<^verbatim>\<open>new Mastra\<close> below) are taken to
  succeed.
\<close>

definition createWebSearchAgent :: "caller \<Rightarrow> env \<Rightarrow> module_state \<Rightarrow> agent promise \<times> module_state" where
  "createWebSearchAgent who e st =
     (let st1 = st\<lparr>calls := calls st @ [Call_createWebSearchAgent who]\<rparr>
      in case getTools e of
           Inl error \<Rightarrow> new_promise (Inl error) st1
         | Inr mcpTools \<Rightarrow> new_promise (Inr (Agent ''web-search-agent'' mcpTools)) st1)"

text \<open>The Mastra instance that \<^verbatim>\<open>initializeMastra\<close> builds (lines 181-185).\<close>

definition mastra_instance :: mastra where
  "mastra_instance = \<lparr>workflows = [''web-search-workflow'' \<mapsto> webSearchWorkflow]\<rparr>"

text \<open>Lines 74-188.\<close>

definition initializeMastra :: "env \<Rightarrow> module_state \<Rightarrow> mastra promise \<times> module_state" where
  "initializeMastra e st =
     (let st1 = st\<lparr>calls := calls st @ [Call_initializeMastra]\<rparr>
      in case createWebSearchAgent From_initializeMastra e st1 of
           (p, st2) \<Rightarrow>
             (case settled p of
                Inl error \<Rightarrow> new_promise (Inl error) st2
              | Inr webSearchAgent \<Rightarrow>
                  new_promise (Inr mastra_instance) st2))"

text \<open>
  Lines 191-196. The function is \<^verbatim>\<open>async\<close>: what its caller gets is not the cached
  promise of the \<^verbatim>\<open>return\<close> statement but a promise of the call's own, created for
  this call, which settles as the cached one does.
\<close>

definition getMastra :: "env \<Rightarrow> module_state \<Rightarrow> mastra promise \<times> module_state" where
  "getMastra e st =
     (case mastraPromise st of
        None \<Rightarrow>
          (case initializeMastra e st of
             (p, st1) \<Rightarrow> new_promise (settled p) (st1\<lparr>mastraPromise := Some p\<rparr>))
      | Some p \<Rightarrow> new_promise (settled p) st)"

text \<open>Lines 199-204, likewise.\<close>

definition getWebSearchAgent :: "env \<Rightarrow> module_state \<Rightarrow> agent promise \<times> module_state" where
  "getWebSearchAgent e st =
     (case webSearchAgentPromise st of
        None \<Rightarrow>
          (case createWebSearchAgent From_getWebSearchAgent e st of
             (p, st1) \<Rightarrow> new_promise (settled p) (st1\<lparr>webSearchAgentPromise := Some p\<rparr>))
      | Some p \<Rightarrow> new_promise (settled p) st)"

section \<open>The run entry point (lines 207-261)\<close>

text \<open>
  The request: \<^verbatim>\<open>req.query\<close> is the object of the parsed query parameters, or is
  missing; \<^verbatim>\<open>req.query.query\<close> is the parameter named \<^verbatim>\<open>query\<close>.
\<close>

record request =
  req_query :: "(string \<rightharpoonup> string) option"

datatype run_result = RunSuccess "step_output option" | RunFailure string

text \<open>
  Modelled from the spec: \<^verbatim>\<open>mastra.getWorkflow\<close> belongs to the workflow library,
  which is not part of the source. Sections 4.4 and 7 of the specification: a name that
  is not registered is a lookup error, which the caller sees as an exception.
\<close>

definition getWorkflow :: "mastra \<Rightarrow> string \<Rightarrow> js_thrown + workflow" where
  "getWorkflow m n =
     (case workflows m n of None \<Rightarrow> Inl (ErrorInstance ''RunLookupError'') | Some w \<Rightarrow> Inr w)"

text \<open>Lines 219-253: the body of the \<^verbatim>\<open>try\<close> block, up to the value of \<^verbatim>\<open>result\<close>.\<close>

definition run_workflow ::
  "env \<Rightarrow> module_state \<Rightarrow> string \<Rightarrow> (js_thrown + step_output option) \<times> module_state" where
  "run_workflow e st q =
     (case getMastra e st of
        (p, st1) \<Rightarrow>
          (case settled p of
             Inl error \<Rightarrow> (Inl error, st1)
           | Inr m \<Rightarrow>
               (case getWorkflow m ''web-search-workflow'' of
                  Inl error \<Rightarrow> (Inl error, st1)
                | Inr w \<Rightarrow>
                    (case start e w
                            \<lparr>start_triggerData = Some \<lparr>query = Some q\<rparr>,
                             start_input = Some \<lparr>input_query = Some q\<rparr>,
                             start_steps =
                               [''search-step'' \<mapsto> \<lparr>input_query = Some q\<rparr>,
                                ''process-results-step'' \<mapsto> \<lparr>input_query = Some q\<rparr>]\<rparr> of
                       (sent, r) \<Rightarrow> (r, st1\<lparr>calls := calls st1 @ map Call_generate sent\<rparr>)))))"

definition destructure_error_message :: string where
  "destructure_error_message =
     ''Cannot destructure property '' @ [CHR 0x27] @ ''query'' @ [CHR 0x27] @ '' of ''
       @ [CHR 0x27] @ ''req.query'' @ [CHR 0x27] @ '' as it is undefined.''"

text \<open>
  The result is what the caller gets when it awaits the call: a run result, or the value
  the call throws.
\<close>

definition runWebSearchAgent ::
  "env \<Rightarrow> module_state \<Rightarrow> request \<Rightarrow> (js_thrown + run_result) \<times> module_state" where
  "runWebSearchAgent e st req =
     (case req_query req of
        None \<Rightarrow> (Inl (ErrorInstance destructure_error_message), st)
      | Some params \<Rightarrow>
          (let query = params ''query''
           in if \<not> truthy query
              then (Inr (RunFailure ''No prompt provided''), st)
              else (case query of
                      None \<Rightarrow> (Inr (RunFailure ''No prompt provided''), st)
                    | Some q \<Rightarrow>
                        (case run_workflow e st q of
                           (Inr result, st1) \<Rightarrow> (Inr (RunSuccess result), st1)
                         | (Inl error, st1) \<Rightarrow>
                             (Inr (RunFailure
                                (case error of
                                   ErrorInstance m \<Rightarrow> m
                                 | NonError m \<Rightarrow> ''Failed to run web search agent''
                                 | Nullish \<Rightarrow> ''Failed to run web search agent'')), st1)))))"

section \<open>A process: calls of the exported functions, one after the other\<close>

text \<open>
  The module exports \<^verbatim>\<open>createWebSearchAgent\<close>, \<^verbatim>\<open>getMastra\<close>,
  \<^verbatim>\<open>getWebSearchAgent\<close> and \<^verbatim>\<open>runWebSearchAgent\<close>. Here a process is a
  sequence of such calls, each followed to its end in the environment it meets; the
  states it reaches are the ones in which the runs of the claims below are taken.
\<close>

datatype api_call =
  CreateWebSearchAgent | GetMastra | GetWebSearchAgent | RunWebSearchAgent request

fun api_step :: "env \<times> api_call \<Rightarrow> module_state \<Rightarrow> module_state" where
  "api_step (e, CreateWebSearchAgent) st = snd (createWebSearchAgent From_outside e st)"
| "api_step (e, GetMastra) st = snd (getMastra e st)"
| "api_step (e, GetWebSearchAgent) st = snd (getWebSearchAgent e st)"
| "api_step (e, RunWebSearchAgent req) st = snd (runWebSearchAgent e st req)"

definition exec_calls :: "(env \<times> api_call) list \<Rightarrow> module_state \<Rightarrow> module_state" where
  "exec_calls cs st = fold api_step cs st"

text \<open>
  What holds of the module state after any sequence of calls: \<^verbatim>\<open>initializeMastra\<close>
  has run exactly when the Mastra promise is cached, \<^verbatim>\<open>getWebSearchAgent\<close> has
  called \<^verbatim>\<open>createWebSearchAgent\<close> exactly when the agent promise is cached, and a
  cached Mastra promise that is fulfilled holds the instance built at lines 181-185.
\<close>

definition cache_inv :: "module_state \<Rightarrow> bool" where
  "cache_inv st =
     (count_list (calls st) Call_initializeMastra =
        (case mastraPromise st of None \<Rightarrow> 0 | Some p \<Rightarrow> 1)
      \<and> count_list (calls st) (Call_createWebSearchAgent From_getWebSearchAgent) =
        (case webSearchAgentPromise st of None \<Rightarrow> 0 | Some p \<Rightarrow> 1)
      \<and> (case mastraPromise st of
           None \<Rightarrow> True
         | Some p \<Rightarrow> (case settled p of Inl error \<Rightarrow> True | Inr m \<Rightarrow> m = mastra_instance)))"

section \<open>The event loop: the calls at the grain of their awaits\<close>

text \<open>
  The sections above follow one call to its end. This section keeps what happens in
  between: an \<^verbatim>\<open>async\<close> function runs synchronously up to its first
  \<^verbatim>\<open>await\<close>, hands its caller a promise that is still pending, and is resumed
  later, when the awaited promise has settled; between the two, other calls run. A
  promise is a position in a list of its type, pending or settled for good.
\<close>

datatype 'a promise_state = Pending | Settled "js_thrown + 'a"

text \<open>What a promise has settled with, if it has.\<close>

definition outcome :: "'a promise_state list \<Rightarrow> nat \<Rightarrow> (js_thrown + 'a) option" where
  "outcome ps n =
     (if n < length ps then (case ps ! n of Pending \<Rightarrow> None | Settled r \<Rightarrow> Some r) else None)"

text \<open>Settling a promise has an effect only while it is pending.\<close>

definition settle :: "nat \<Rightarrow> js_thrown + 'a \<Rightarrow> 'a promise_state list \<Rightarrow> 'a promise_state list" where
  "settle n r ps =
     (if n < length ps
      then (case ps ! n of Pending \<Rightarrow> ps[n := Settled r] | Settled r' \<Rightarrow> ps)
      else ps)"

text \<open>
  A suspended call: the promise it awaits and the promise it will settle.
  \<^item> \<open>Resume_createWebSearchAgent t a\<close>: line 43, awaiting the tools promise \<open>t\<close>;
  \<^item> \<open>Resume_initializeMastra a m\<close>: line 76, awaiting the agent promise \<open>a\<close>;
  \<^item> \<open>Follow_mastra p w\<close> and \<open>Follow_agent p w\<close>: lines 195 and 203, an
    \<^verbatim>\<open>async\<close> function returning the promise \<open>p\<close>: the call's own promise \<open>w\<close>
    settles as \<open>p\<close> does;
  \<^item> \<open>Resume_runWebSearchAgent w q r\<close>: line 220, awaiting the promise \<open>w\<close> that
    \<^verbatim>\<open>getMastra()\<close> returned, with the query \<open>q\<close>.
\<close>

datatype task =
    Resume_createWebSearchAgent nat nat
  | Resume_initializeMastra nat nat
  | Follow_mastra nat nat
  | Follow_agent nat nat
  | Resume_runWebSearchAgent nat string nat

text \<open>
  The two module variables of lines 37-38, the promises created so far, the suspended
  calls, and the record of calls as in \<open>module_state\<close>.
\<close>

record event_loop =
  loop_mastraPromise :: "nat option"
  loop_webSearchAgentPromise :: "nat option"
  tools_promises :: "tools promise_state list"
  agent_promises :: "agent promise_state list"
  mastra_promises :: "mastra promise_state list"
  result_promises :: "run_result promise_state list"
  tasks :: "task list"
  loop_calls :: "call list"

definition loop_initial :: event_loop where
  "loop_initial =
     \<lparr>loop_mastraPromise = None, loop_webSearchAgentPromise = None, tools_promises = [],
      agent_promises = [], mastra_promises = [], result_promises = [], tasks = [],
      loop_calls = []\<rparr>"

text \<open>
  Lines 41-43, up to the \<^verbatim>\<open>await\<close>: \<^verbatim>\<open>mcp.getTools()\<close> is called and gives a
  pending promise, which the environment settles later; the call suspends on it.
\<close>

definition begin_createWebSearchAgent :: "caller \<Rightarrow> event_loop \<Rightarrow> nat \<times> event_loop" where
  "begin_createWebSearchAgent who s =
     (let t = length (tools_promises s); a = length (agent_promises s)
      in (a, s\<lparr>loop_calls := loop_calls s @ [Call_createWebSearchAgent who],
               tools_promises := tools_promises s @ [Pending],
               agent_promises := agent_promises s @ [Pending],
               tasks := tasks s @ [Resume_createWebSearchAgent t a]\<rparr>))"

text \<open>
  Lines 74-76, up to the \<^verbatim>\<open>await\<close>: \<^verbatim>\<open>createWebSearchAgent()\<close> runs up to its
  own \<^verbatim>\<open>await\<close>, and the call suspends on the promise it returns.
\<close>

definition begin_initializeMastra :: "event_loop \<Rightarrow> nat \<times> event_loop" where
  "begin_initializeMastra s =
     (case begin_createWebSearchAgent From_initializeMastra
             (s\<lparr>loop_calls := loop_calls s @ [Call_initializeMastra]\<rparr>) of
        (a, s1) \<Rightarrow>
          (let m = length (mastra_promises s1)
           in (m, s1\<lparr>mastra_promises := mastra_promises s1 @ [Pending],
                     tasks := tasks s1 @ [Resume_initializeMastra a m]\<rparr>)))"

text \<open>
  \<^verbatim>\<open>return p\<close> in an \<^verbatim>\<open>async\<close> function, for a promise \<open>p\<close>: the caller gets a
  new promise, and the task that makes it follow \<open>p\<close> is queued.
\<close>

definition return_mastra_promise :: "nat \<Rightarrow> event_loop \<Rightarrow> nat \<times> event_loop" where
  "return_mastra_promise p s =
     (let w = length (mastra_promises s)
      in (w, s\<lparr>mastra_promises := mastra_promises s @ [Pending],
               tasks := tasks s @ [Follow_mastra p w]\<rparr>))"

definition return_agent_promise :: "nat \<Rightarrow> event_loop \<Rightarrow> nat \<times> event_loop" where
  "return_agent_promise p s =
     (let w = length (agent_promises s)
      in (w, s\<lparr>agent_promises := agent_promises s @ [Pending],
               tasks := tasks s @ [Follow_agent p w]\<rparr>))"

text \<open>
  Lines 191-196. There is no \<^verbatim>\<open>await\<close> in the function: the test of line 192, the
  call of line 193 up to its first \<^verbatim>\<open>await\<close>, the assignment and the return are one
  synchronous stretch.
\<close>

definition begin_getMastra :: "event_loop \<Rightarrow> nat \<times> event_loop" where
  "begin_getMastra s =
     (case loop_mastraPromise s of
        None \<Rightarrow>
          (case begin_initializeMastra s of
             (m, s1) \<Rightarrow> return_mastra_promise m (s1\<lparr>loop_mastraPromise := Some m\<rparr>))
      | Some m \<Rightarrow> return_mastra_promise m s)"

text \<open>Lines 199-204, likewise.\<close>

definition begin_getWebSearchAgent :: "event_loop \<Rightarrow> nat \<times> event_loop" where
  "begin_getWebSearchAgent s =
     (case loop_webSearchAgentPromise s of
        None \<Rightarrow>
          (case begin_createWebSearchAgent From_getWebSearchAgent s of
             (a, s1) \<Rightarrow> return_agent_promise a (s1\<lparr>loop_webSearchAgentPromise := Some a\<rparr>))
      | Some a \<Rightarrow> return_agent_promise a s)"

text \<open>
  Lines 207-220, up to the \<^verbatim>\<open>await\<close>. A call that throws or returns before it gives
  a promise that is settled already.
\<close>

definition begin_runWebSearchAgent :: "request \<Rightarrow> event_loop \<Rightarrow> nat \<times> event_loop" where
  "begin_runWebSearchAgent req s =
     (case req_query req of
        None \<Rightarrow>
          (length (result_promises s),
           s\<lparr>result_promises := result_promises s
                @ [Settled (Inl (ErrorInstance destructure_error_message))]\<rparr>)
      | Some params \<Rightarrow>
          (let query = params ''query''
           in if \<not> truthy query
              then (length (result_promises s),
                    s\<lparr>result_promises := result_promises s
                         @ [Settled (Inr (RunFailure ''No prompt provided''))]\<rparr>)
              else (case query of
                      None \<Rightarrow>
                        (length (result_promises s),
                         s\<lparr>result_promises := result_promises s
                              @ [Settled (Inr (RunFailure ''No prompt provided''))]\<rparr>)
                    | Some q \<Rightarrow>
                        (case begin_getMastra s of
                           (w, s1) \<Rightarrow>
                             (let r = length (result_promises s1)
                              in (r, s1\<lparr>result_promises := result_promises s1 @ [Pending],
                                        tasks := tasks s1 @ [Resume_runWebSearchAgent w q r]\<rparr>))))))"

text \<open>Line 258.\<close>

definition failure_message :: "js_thrown \<Rightarrow> string" where
  "failure_message error =
     (case error of
        ErrorInstance m \<Rightarrow> m
      | NonError m \<Rightarrow> ''Failed to run web search agent''
      | Nullish \<Rightarrow> ''Failed to run web search agent'')"

text \<open>
  Lines 220-260 from the point where the awaited \<^verbatim>\<open>getMastra()\<close> has settled with
  \<open>got\<close>: the contents sent to the agent and the result of the call. The run of the
  workflow is taken in one piece; it reads and writes neither module variable.
\<close>

definition finish_run :: "env \<Rightarrow> js_thrown + mastra \<Rightarrow> string \<Rightarrow> string list \<times> run_result" where
  "finish_run e got q =
     (case got of
        Inl error \<Rightarrow> ([], RunFailure (failure_message error))
      | Inr m \<Rightarrow>
          (case getWorkflow m ''web-search-workflow'' of
             Inl error \<Rightarrow> ([], RunFailure (failure_message error))
           | Inr w \<Rightarrow>
               (case start e w
                       \<lparr>start_triggerData = Some \<lparr>query = Some q\<rparr>,
                        start_input = Some \<lparr>input_query = Some q\<rparr>,
                        start_steps =
                          [''search-step'' \<mapsto> \<lparr>input_query = Some q\<rparr>,
                           ''process-results-step'' \<mapsto> \<lparr>input_query = Some q\<rparr>]\<rparr> of
                  (sent, Inr result) \<Rightarrow> (sent, RunSuccess result)
                | (sent, Inl error) \<Rightarrow> (sent, RunFailure (failure_message error)))))"

text \<open>
  Resuming a suspended call once the promise it awaits has settled; before that, nothing
  happens. Lines 46-70 for \<^verbatim>\<open>createWebSearchAgent\<close>, lines 79-187 for
  \<^verbatim>\<open>initializeMastra\<close>; a call of \<^verbatim>\<open>runWebSearchAgent\<close> is resumed once.
\<close>

fun resume :: "env \<Rightarrow> task \<Rightarrow> event_loop \<Rightarrow> event_loop" where
  "resume e (Resume_createWebSearchAgent t a) s =
     (case outcome (tools_promises s) t of
        None \<Rightarrow> s
      | Some r \<Rightarrow>
          s\<lparr>agent_promises :=
               settle a (case r of
                           Inl error \<Rightarrow> Inl error
                         | Inr mcpTools \<Rightarrow> Inr (Agent ''web-search-agent'' mcpTools))
                 (agent_promises s)\<rparr>)"
| "resume e (Resume_initializeMastra a m) s =
     (case outcome (agent_promises s) a of
        None \<Rightarrow> s
      | Some r \<Rightarrow>
          s\<lparr>mastra_promises :=
               settle m (case r of
                           Inl error \<Rightarrow> Inl error
                         | Inr webSearchAgent \<Rightarrow> Inr mastra_instance)
                 (mastra_promises s)\<rparr>)"
| "resume e (Follow_mastra p w) s =
     (case outcome (mastra_promises s) p of
        None \<Rightarrow> s
      | Some r \<Rightarrow> s\<lparr>mastra_promises := settle w r (mastra_promises s)\<rparr>)"
| "resume e (Follow_agent p w) s =
     (case outcome (agent_promises s) p of
        None \<Rightarrow> s
      | Some r \<Rightarrow> s\<lparr>agent_promises := settle w r (agent_promises s)\<rparr>)"
| "resume e (Resume_runWebSearchAgent w q r) s =
     (case outcome (mastra_promises s) w of
        None \<Rightarrow> s
      | Some got \<Rightarrow>
          (case outcome (result_promises s) r of
             Some res \<Rightarrow> s
           | None \<Rightarrow>
               (case finish_run e got q of
                  (sent, res) \<Rightarrow>
                    s\<lparr>result_promises := settle r (Inr res) (result_promises s),
                      loop_calls := loop_calls s @ map Call_generate sent\<rparr>)))"

text \<open>
  What can happen next: one of the exported functions is called and runs up to its
  \<^verbatim>\<open>await\<close>; tool provisioning settles one of its promises, fulfilled or rejected;
  or a suspended call is resumed. A process is any sequence of these, in any order.
\<close>

datatype event = Invoke api_call | Tools_settle nat "js_thrown + tools" | Resume nat env

fun loop_step :: "event \<Rightarrow> event_loop \<Rightarrow> event_loop" where
  "loop_step (Invoke CreateWebSearchAgent) s = snd (begin_createWebSearchAgent From_outside s)"
| "loop_step (Invoke GetMastra) s = snd (begin_getMastra s)"
| "loop_step (Invoke GetWebSearchAgent) s = snd (begin_getWebSearchAgent s)"
| "loop_step (Invoke (RunWebSearchAgent req)) s = snd (begin_runWebSearchAgent req s)"
| "loop_step (Tools_settle t r) s = s\<lparr>tools_promises := settle t r (tools_promises s)\<rparr>"
| "loop_step (Resume k e) s = (if k < length (tasks s) then resume e (tasks s ! k) s else s)"

definition run_events :: "event list \<Rightarrow> event_loop \<Rightarrow> event_loop" where
  "run_events evs s = fold loop_step evs s"

text \<open>The promise of the Mastra list, and of the agent list, that a task settles.\<close>

fun mastra_target :: "task \<Rightarrow> nat list" where
  "mastra_target (Resume_initializeMastra a m) = [m]"
| "mastra_target (Follow_mastra p w) = [w]"
| "mastra_target t = []"

fun agent_target :: "task \<Rightarrow> nat list" where
  "agent_target (Resume_createWebSearchAgent t a) = [a]"
| "agent_target (Follow_agent p w) = [w]"
| "agent_target t = []"

text \<open>
  The promise \<open>w\<close> follows the promise \<open>p\<close>, created before it: \<open>w\<close> is pending, or
  both have settled, with the same outcome.
\<close>

definition follows :: "'a promise_state list \<Rightarrow> nat \<Rightarrow> nat \<Rightarrow> bool" where
  "follows ps p w = (p < w \<and> (outcome ps w = None \<or> outcome ps w = outcome ps p))"

text \<open>
  What holds of the event loop after any sequence of events: the initialisers have run
  exactly when the module variables are set, the variables point to promises that exist,
  every Mastra and agent promise is settled by exactly one task, and the promises handed
  out by \<^verbatim>\<open>getMastra\<close> and \<^verbatim>\<open>getWebSearchAgent\<close> follow the ones they were made
  for.
\<close>

definition loop_inv :: "event_loop \<Rightarrow> bool" where
  "loop_inv s =
     (count_list (loop_calls s) Call_initializeMastra =
        (case loop_mastraPromise s of None \<Rightarrow> 0 | Some m \<Rightarrow> 1)
      \<and> count_list (loop_calls s) (Call_createWebSearchAgent From_getWebSearchAgent) =
        (case loop_webSearchAgentPromise s of None \<Rightarrow> 0 | Some a \<Rightarrow> 1)
      \<and> (case loop_mastraPromise s of None \<Rightarrow> True | Some m \<Rightarrow> m < length (mastra_promises s))
      \<and> (case loop_webSearchAgentPromise s of
            None \<Rightarrow> True | Some a \<Rightarrow> a < length (agent_promises s))
      \<and> concat (map mastra_target (tasks s)) = [0..<length (mastra_promises s)]
      \<and> concat (map agent_target (tasks s)) = [0..<length (agent_promises s)]
      \<and> (\<forall>p w. Follow_mastra p w \<in> set (tasks s) \<longrightarrow> follows (mastra_promises s) p w)
      \<and> (\<forall>p w. Follow_agent p w \<in> set (tasks s) \<longrightarrow> follows (agent_promises s) p w))"

section \<open>Concrete environments and contexts\<close>

text \<open>
  Four environments for the concrete runs below: no credential; a credential and an
  agent that answers; a credential and an agent that fails with an \<^verbatim>\<open>Error\<close>;
  and tool provisioning that fails.
\<close>

definition env_unconfigured :: env where
  "env_unconfigured =
     \<lparr>ANTHROPIC_API_KEY = None, generate = (\<lambda>q. Inr ''Tokyo''), getTools = Inr []\<rparr>"

definition env_configured :: env where
  "env_configured =
     \<lparr>ANTHROPIC_API_KEY = Some ''sk-live'', generate = (\<lambda>q. Inr ''Tokyo''), getTools = Inr []\<rparr>"

definition env_timeout :: env where
  "env_timeout =
     \<lparr>ANTHROPIC_API_KEY = Some ''sk-live'',
      generate = (\<lambda>q. Inl (ErrorInstance ''NetworkTimeout'')), getTools = Inr []\<rparr>"

definition env_no_tools :: "js_thrown \<Rightarrow> env" where
  "env_no_tools thrown =
     \<lparr>ANTHROPIC_API_KEY = Some ''sk-live'', generate = (\<lambda>q. Inr ''Tokyo''),
      getTools = Inl thrown\<rparr>"

text \<open>
  The context a step sees when the caller's overrides for the two steps, the search
  step's output and the trigger data carry the queries \<open>ov\<close>, \<open>prev\<close> and
  \<open>trig\<close>; \<open>None\<close> leaves the layer out.
\<close>

definition layered_context ::
  "string option \<Rightarrow> string option \<Rightarrow> string option \<Rightarrow> execution_context" where
  "layered_context ov prev trig =
     \<lparr>inner_context = Some
        \<lparr>triggerData = (case trig of None \<Rightarrow> None | Some t \<Rightarrow> Some \<lparr>query = Some t\<rparr>),
         steps = Some (case prev of
                         None \<Rightarrow> Map.empty
                       | Some p \<Rightarrow> [''search-step'' \<mapsto> \<lparr>result_output = Some (QueryOutput p)\<rparr>]),
         stepOverrides = (case ov of
                            None \<Rightarrow> Map.empty
                          | Some v \<Rightarrow> [''search-step'' \<mapsto> \<lparr>input_query = Some v\<rparr>,
                                       ''process-results-step'' \<mapsto> \<lparr>input_query = Some v\<rparr>])\<rparr>\<rparr>"

section \<open>Auxiliary facts\<close>

subsection \<open>The fixed strings\<close>

lemma canned_answer_nonempty: "canned_answer \<noteq> []"
  by (simp add: canned_answer_def)

lemma error_prefix_nonempty: "error_prefix \<noteq> []"
  by (simp add: error_prefix_def)

lemma JSON_stringify_nonempty: "JSON_stringify s \<noteq> []"
  by (simp add: JSON_stringify_def)

lemma canned_not_default: "canned_answer \<noteq> no_query_response"
  by (simp add: canned_answer_def no_query_response_def)

lemma no_query_search_nonempty: "no_query_search \<noteq> []"
  by (simp add: no_query_search_def)

subsection \<open>The two-step run\<close>

lemma search_then_process_query:
  "process_query \<lparr>inner_context = Some (record_output
       \<lparr>triggerData = td, steps = Some Map.empty, stepOverrides = ov\<rparr> ''search-step'' (QueryOutput q))\<rparr>
     = (if q = [] then Option.bind td query else Some q)"
  by (simp add: process_query_def previous_step_query_def trigger_query_def record_output_def
      js_or_def truthy_def)

lemma start_nonempty:
  assumes "q \<noteq> []"
  shows "start e webSearchWorkflow
           \<lparr>start_triggerData = Some \<lparr>query = Some q\<rparr>, start_input = i, start_steps = ov\<rparr>
         = map_prod id (map_sum id Some) (invoke_agent e q)"
  using assms
  by (simp add: start_def webSearchWorkflow_def searchStep_def processResultsStep_def
      searchStep_execute_def trigger_query_def search_then_process_query
      processResultsStep_execute_def split: prod.splits sum.splits)

lemma start_falsy:
  assumes "\<not> truthy tq"
  shows "start e webSearchWorkflow
           \<lparr>start_triggerData = Some \<lparr>query = tq\<rparr>, start_input = i, start_steps = ov\<rparr>
         = map_prod id (map_sum id Some) (invoke_agent e no_query_search)"
  using assms
  by (simp add: start_def webSearchWorkflow_def searchStep_def processResultsStep_def
      searchStep_execute_def trigger_query_def search_then_process_query truthy_def
      processResultsStep_execute_def no_query_search_nonempty split: prod.splits sum.splits option.splits)


subsection \<open>How the calls change the module state\<close>

lemma createWebSearchAgent_state:
  "snd (createWebSearchAgent who e st) =
     st\<lparr>allocated := Suc (allocated st), calls := calls st @ [Call_createWebSearchAgent who]\<rparr>"
  by (simp add: createWebSearchAgent_def new_promise_def Let_def split: sum.splits)

lemma initializeMastra_state:
  "snd (initializeMastra e st) =
     st\<lparr>allocated := Suc (Suc (allocated st)),
        calls := calls st @ [Call_initializeMastra, Call_createWebSearchAgent From_initializeMastra]\<rparr>"
  by (simp add: initializeMastra_def createWebSearchAgent_def new_promise_def Let_def split: sum.splits prod.splits)

lemma initializeMastra_settled:
  "settled (fst (initializeMastra e st)) =
     (case getTools e of Inl error \<Rightarrow> Inl error | Inr ts \<Rightarrow> Inr mastra_instance)"
  by (simp add: initializeMastra_def createWebSearchAgent_def new_promise_def Let_def split: sum.splits prod.splits)

lemma getMastra_cached:
  "mastraPromise st = Some p \<Longrightarrow>
   getMastra e st = (Promise (allocated st) (settled p), st\<lparr>allocated := Suc (allocated st)\<rparr>)"
  by (simp add: getMastra_def new_promise_def)

lemma getMastra_fresh:
  "mastraPromise st = None \<Longrightarrow>
   getMastra e st =
     (Promise (Suc (Suc (allocated st))) (settled (fst (initializeMastra e st))),
      (snd (initializeMastra e st))
        \<lparr>mastraPromise := Some (fst (initializeMastra e st)),
         allocated := Suc (Suc (Suc (allocated st)))\<rparr>)"
proof -
  assume none: "mastraPromise st = None"
  obtain p st1 where i: "initializeMastra e st = (p, st1)" by (cases "initializeMastra e st")
  have "st1 = snd (initializeMastra e st)" by (simp add: i)
  then have st1: "st1 = st\<lparr>allocated := Suc (Suc (allocated st)),
      calls := calls st @ [Call_initializeMastra, Call_createWebSearchAgent From_initializeMastra]\<rparr>"
    by (simp only: initializeMastra_state)
  show ?thesis
    by (simp add: getMastra_def none i new_promise_def initializeMastra_state) (simp add: st1)
qed

lemma getWebSearchAgent_cached:
  "webSearchAgentPromise st = Some p \<Longrightarrow>
   getWebSearchAgent e st =
     (Promise (allocated st) (settled p), st\<lparr>allocated := Suc (allocated st)\<rparr>)"
  by (simp add: getWebSearchAgent_def new_promise_def)

lemma getWebSearchAgent_fresh:
  "webSearchAgentPromise st = None \<Longrightarrow>
   getWebSearchAgent e st =
     (Promise (Suc (allocated st))
        (settled (fst (createWebSearchAgent From_getWebSearchAgent e st))),
      (snd (createWebSearchAgent From_getWebSearchAgent e st))
        \<lparr>webSearchAgentPromise := Some (fst (createWebSearchAgent From_getWebSearchAgent e st)),
         allocated := Suc (Suc (allocated st))\<rparr>)"
proof -
  assume none: "webSearchAgentPromise st = None"
  obtain p st1 where c: "createWebSearchAgent From_getWebSearchAgent e st = (p, st1)"
    by (cases "createWebSearchAgent From_getWebSearchAgent e st")
  have "st1 = snd (createWebSearchAgent From_getWebSearchAgent e st)" by (simp add: c)
  then have st1: "st1 = st\<lparr>allocated := Suc (allocated st),
      calls := calls st @ [Call_createWebSearchAgent From_getWebSearchAgent]\<rparr>"
    by (simp only: createWebSearchAgent_state)
  show ?thesis
    by (simp add: getWebSearchAgent_def none c new_promise_def createWebSearchAgent_state)
      (simp add: st1)
qed

lemma run_workflow_state:
  "\<exists>sent. snd (run_workflow e st q) =
     (snd (getMastra e st))\<lparr>calls := calls (snd (getMastra e st)) @ map Call_generate sent\<rparr>"
proof (cases "getMastra e st")
  case (Pair p st1)
  have triv: "st1 = st1\<lparr>calls := calls st1 @ map Call_generate []\<rparr>" by simp
  show ?thesis
  proof (cases "settled p")
    case (Inl error)
    with Pair triv show ?thesis by (auto simp: run_workflow_def intro!: exI[of _ "[]"])
  next
    case (Inr m)
    show ?thesis
    proof (cases "getWorkflow m ''web-search-workflow''")
      case (Inl error)
      with Pair Inr triv show ?thesis by (auto simp: run_workflow_def intro!: exI[of _ "[]"])
    next
      case w: (Inr w)
      with Pair Inr show ?thesis by (auto simp: run_workflow_def split: prod.splits)
    qed
  qed
qed

lemma runWebSearchAgent_state:
  "snd (runWebSearchAgent e st req) = st \<or>
   (\<exists>sent. snd (runWebSearchAgent e st req) =
     (snd (getMastra e st))\<lparr>calls := calls (snd (getMastra e st)) @ map Call_generate sent\<rparr>)"
proof (cases "req_query req")
  case None
  then show ?thesis by (simp add: runWebSearchAgent_def)
next
  case (Some params)
  show ?thesis
  proof (cases "params ''query''")
    case None
    with Some show ?thesis by (simp add: runWebSearchAgent_def truthy_def)
  next
    case q: (Some q)
    obtain sent where s: "snd (run_workflow e st q) =
       (snd (getMastra e st))\<lparr>calls := calls (snd (getMastra e st)) @ map Call_generate sent\<rparr>"
      using run_workflow_state by blast
    have "snd (runWebSearchAgent e st req) = st \<or> snd (runWebSearchAgent e st req) = snd (run_workflow e st q)"
      using Some q by (simp add: runWebSearchAgent_def truthy_def split: prod.splits sum.splits)
    with s show ?thesis by metis
  qed
qed

subsection \<open>The caches after any sequence of calls\<close>

lemma count_generate [simp]:
  "count_list (map Call_generate sent) Call_initializeMastra = 0"
  "count_list (map Call_generate sent) (Call_createWebSearchAgent who) = 0"
  by (induction sent) auto

lemma cache_inv_initial: "cache_inv initial_state"
  by (simp add: cache_inv_def initial_state_def)

lemma cache_inv_createWebSearchAgent:
  "cache_inv st \<Longrightarrow> cache_inv (snd (createWebSearchAgent From_outside e st))"
  by (simp add: cache_inv_def createWebSearchAgent_state)

lemma cache_inv_getMastra: "cache_inv st \<Longrightarrow> cache_inv (snd (getMastra e st))"
proof (cases "mastraPromise st")
  case None
  assume "cache_inv st"
  with None show ?thesis
    by (simp add: getMastra_fresh initializeMastra_state initializeMastra_settled cache_inv_def
        split: sum.splits)
next
  case (Some p)
  assume "cache_inv st"
  with Some show ?thesis by (simp add: getMastra_cached cache_inv_def)
qed

lemma cache_inv_getWebSearchAgent: "cache_inv st \<Longrightarrow> cache_inv (snd (getWebSearchAgent e st))"
proof (cases "webSearchAgentPromise st")
  case None
  assume "cache_inv st"
  with None show ?thesis
    by (simp add: getWebSearchAgent_fresh createWebSearchAgent_state cache_inv_def)
next
  case (Some p)
  assume "cache_inv st"
  with Some show ?thesis by (simp add: getWebSearchAgent_cached cache_inv_def)
qed

lemma cache_inv_add_generate:
  "cache_inv st \<Longrightarrow> cache_inv (st\<lparr>calls := calls st @ map Call_generate sent\<rparr>)"
  by (simp add: cache_inv_def)

lemma cache_inv_runWebSearchAgent:
  assumes "cache_inv st"
  shows "cache_inv (snd (runWebSearchAgent e st req))"
  using runWebSearchAgent_state [of e st req] assms
    cache_inv_add_generate [OF cache_inv_getMastra [OF assms, of e]]
  by auto

lemma cache_inv_api_step: "cache_inv st \<Longrightarrow> cache_inv (api_step c st)"
proof (cases c)
  case (Pair e a)
  assume "cache_inv st"
  with Pair show ?thesis
    by (cases a)
      (simp_all add: cache_inv_createWebSearchAgent cache_inv_getMastra
        cache_inv_getWebSearchAgent cache_inv_runWebSearchAgent)
qed

lemma cache_inv_exec_calls: "cache_inv st \<Longrightarrow> cache_inv (exec_calls cs st)"
  unfolding exec_calls_def
  by (induction cs arbitrary: st) (simp_all add: cache_inv_api_step)

subsection \<open>The run entry point once initialisation has succeeded\<close>

lemma getMastra_ready:
  assumes "cache_inv st" and "settled (fst (getMastra e st)) = Inr m"
  shows "m = mastra_instance"
proof (cases "mastraPromise st")
  case None
  with assms(2) show ?thesis
    by (simp add: getMastra_fresh initializeMastra_settled split: sum.splits)
next
  case (Some p)
  with assms show ?thesis by (simp add: getMastra_cached cache_inv_def)
qed

lemma run_workflow_ready:
  assumes "cache_inv st" and "settled (fst (getMastra e st)) = Inr m" and "q \<noteq> []"
  shows "fst (run_workflow e st q) = map_sum id Some (snd (invoke_agent e q))"
proof -
  have m: "m = mastra_instance" using assms(1,2) by (rule getMastra_ready)
  obtain p st1 where g: "getMastra e st = (p, st1)" by (cases "getMastra e st")
  with assms(2) m have s: "settled p = Inr mastra_instance" by simp
  have w: "getWorkflow mastra_instance ''web-search-workflow'' = Inr webSearchWorkflow"
    by (simp add: getWorkflow_def mastra_instance_def)
  show ?thesis
    by (cases "invoke_agent e q")
      (simp add: run_workflow_def g s w start_nonempty [OF assms(3)])
qed

lemma runWebSearchAgent_ready:
  assumes "cache_inv st" and "settled (fst (getMastra e st)) = Inr m"
    and "q \<noteq> []" and "params ''query'' = Some q"
  shows "fst (runWebSearchAgent e st \<lparr>req_query = Some params\<rparr>) =
           (case snd (invoke_agent e q) of
              Inr out \<Rightarrow> Inr (RunSuccess (Some out))
            | Inl error \<Rightarrow>
                Inr (RunFailure (case error of
                                   ErrorInstance msg \<Rightarrow> msg
                                 | NonError msg \<Rightarrow> ''Failed to run web search agent''
                                 | Nullish \<Rightarrow> ''Failed to run web search agent'')))"
proof -
  have r: "fst (run_workflow e st q) = map_sum id Some (snd (invoke_agent e q))"
    using assms(1-3) by (rule run_workflow_ready)
  obtain x st1 where rw: "run_workflow e st q = (x, st1)" by (cases "run_workflow e st q")
  with r have x: "x = map_sum id Some (snd (invoke_agent e q))" by simp
  show ?thesis
    using assms(3,4)
    by (cases "snd (invoke_agent e q)") (simp_all add: runWebSearchAgent_def truthy_def rw x)
qed

lemma invoke_agent_invalid_key:
  "invalid_api_key e \<Longrightarrow> invoke_agent e q = ([], Inr (AnswerOutput canned_answer))"
  by (simp add: invoke_agent_def)

lemma invoke_agent_text:
  "\<not> invalid_api_key e \<Longrightarrow> generate e q = Inr text \<Longrightarrow>
   invoke_agent e q = ([q], Inr (AnswerOutput (JSON_stringify text)))"
  by (simp add: invoke_agent_def)

lemma invoke_agent_caught:
  "\<not> invalid_api_key e \<Longrightarrow> generate e q = Inl error \<Longrightarrow> get_message error = Inr m \<Longrightarrow>
   invoke_agent e q = ([q], Inr (AnswerOutput (error_prefix @ template_string m)))"
  by (simp add: invoke_agent_def)

lemma get_message_not_nullish: "error \<noteq> Nullish \<Longrightarrow> \<exists>m. get_message error = Inr m"
  by (cases error) simp_all

lemma invoke_agent_answer:
  assumes "generate e q \<noteq> Inl Nullish"
  shows "\<exists>a. snd (invoke_agent e q) = Inr (AnswerOutput a) \<and> a \<noteq> []"
proof (cases "invalid_api_key e")
  case True
  then show ?thesis by (simp add: invoke_agent_invalid_key canned_answer_nonempty)
next
  case False
  show ?thesis
  proof (cases "generate e q")
    case (Inr reply)
    with False show ?thesis by (simp add: invoke_agent_text JSON_stringify_nonempty)
  next
    case (Inl error)
    with assms have "error \<noteq> Nullish" by auto
    then obtain m where "get_message error = Inr m" using get_message_not_nullish by blast
    with False Inl show ?thesis by (simp add: invoke_agent_caught error_prefix_nonempty)
  qed
qed

lemma reachable_inv: "cache_inv (exec_calls cs initial_state)"
  by (rule cache_inv_exec_calls [OF cache_inv_initial])

lemma getMastra_initial:
  "getTools e = Inr ts \<Longrightarrow> settled (fst (getMastra e initial_state)) = Inr mastra_instance"
  by (simp add: getMastra_fresh initial_state_def initializeMastra_settled)

lemma exec_calls_Nil: "exec_calls [] st = st"
  by (simp add: exec_calls_def)

lemma run_workflow_no_tools:
  "fst (run_workflow (env_no_tools thrown) initial_state q) = Inl thrown"
  by (simp add: run_workflow_def getMastra_fresh initial_state_def initializeMastra_settled
      env_no_tools_def split: prod.splits)

subsection \<open>The event loop after any sequence of events\<close>

lemma length_settle [simp]: "length (settle n r ps) = length ps"
  by (simp add: settle_def split: promise_state.splits)

lemma outcome_settle:
  "outcome (settle n r ps) j =
     (if j = n \<and> n < length ps \<and> outcome ps n = None then Some r else outcome ps j)"
  by (auto simp: settle_def outcome_def nth_list_update split: promise_state.splits)

lemma outcome_append_Pending:
  "outcome (ps @ [Pending]) j = outcome ps j"
  by (auto simp: outcome_def nth_append)

lemma follows_append: "follows ps p w \<Longrightarrow> follows (ps @ [Pending]) p w"
  by (simp add: follows_def outcome_append_Pending)

lemma follows_new: "p < length ps \<Longrightarrow> follows (ps @ [Pending]) p (length ps)"
  by (simp add: follows_def outcome_def)

lemma follows_settle_other:
  assumes "follows ps p w" and "w \<noteq> n"
  shows "follows (settle n r ps) p w"
  using assms by (auto simp: follows_def outcome_settle)

lemma follows_settle_self:
  assumes "follows ps p w" and "outcome ps p = Some r"
  shows "follows (settle w r ps) p w"
  using assms by (auto simp: follows_def outcome_settle)

lemma begin_createWebSearchAgent_eq:
  "begin_createWebSearchAgent who s =
     (length (agent_promises s),
      s\<lparr>loop_calls := loop_calls s @ [Call_createWebSearchAgent who],
        tools_promises := tools_promises s @ [Pending],
        agent_promises := agent_promises s @ [Pending],
        tasks := tasks s @ [Resume_createWebSearchAgent (length (tools_promises s))
                              (length (agent_promises s))]\<rparr>)"
  by (simp add: begin_createWebSearchAgent_def Let_def)

lemma begin_initializeMastra_eq:
  "begin_initializeMastra s =
     (length (mastra_promises s),
      s\<lparr>loop_calls := loop_calls s
           @ [Call_initializeMastra, Call_createWebSearchAgent From_initializeMastra],
        tools_promises := tools_promises s @ [Pending],
        agent_promises := agent_promises s @ [Pending],
        mastra_promises := mastra_promises s @ [Pending],
        tasks := tasks s
           @ [Resume_createWebSearchAgent (length (tools_promises s)) (length (agent_promises s)),
              Resume_initializeMastra (length (agent_promises s)) (length (mastra_promises s))]\<rparr>)"
  by (simp add: begin_initializeMastra_def begin_createWebSearchAgent_eq Let_def)

lemma begin_getMastra_cached:
  "loop_mastraPromise s = Some m \<Longrightarrow>
   begin_getMastra s =
     (length (mastra_promises s),
      s\<lparr>mastra_promises := mastra_promises s @ [Pending],
        tasks := tasks s @ [Follow_mastra m (length (mastra_promises s))]\<rparr>)"
  by (simp add: begin_getMastra_def return_mastra_promise_def Let_def)

lemma begin_getMastra_fresh:
  "loop_mastraPromise s = None \<Longrightarrow>
   begin_getMastra s =
     (Suc (length (mastra_promises s)),
      s\<lparr>loop_mastraPromise := Some (length (mastra_promises s)),
        loop_calls := loop_calls s
           @ [Call_initializeMastra, Call_createWebSearchAgent From_initializeMastra],
        tools_promises := tools_promises s @ [Pending],
        agent_promises := agent_promises s @ [Pending],
        mastra_promises := mastra_promises s @ [Pending, Pending],
        tasks := tasks s
           @ [Resume_createWebSearchAgent (length (tools_promises s)) (length (agent_promises s)),
              Resume_initializeMastra (length (agent_promises s)) (length (mastra_promises s)),
              Follow_mastra (length (mastra_promises s)) (Suc (length (mastra_promises s)))]\<rparr>)"
  by (simp add: begin_getMastra_def begin_initializeMastra_eq return_mastra_promise_def Let_def)

lemma begin_getWebSearchAgent_cached:
  "loop_webSearchAgentPromise s = Some a \<Longrightarrow>
   begin_getWebSearchAgent s =
     (length (agent_promises s),
      s\<lparr>agent_promises := agent_promises s @ [Pending],
        tasks := tasks s @ [Follow_agent a (length (agent_promises s))]\<rparr>)"
  by (simp add: begin_getWebSearchAgent_def return_agent_promise_def Let_def)

lemma begin_getWebSearchAgent_fresh:
  "loop_webSearchAgentPromise s = None \<Longrightarrow>
   begin_getWebSearchAgent s =
     (Suc (length (agent_promises s)),
      s\<lparr>loop_webSearchAgentPromise := Some (length (agent_promises s)),
        loop_calls := loop_calls s @ [Call_createWebSearchAgent From_getWebSearchAgent],
        tools_promises := tools_promises s @ [Pending],
        agent_promises := agent_promises s @ [Pending, Pending],
        tasks := tasks s
           @ [Resume_createWebSearchAgent (length (tools_promises s)) (length (agent_promises s)),
              Follow_agent (length (agent_promises s)) (Suc (length (agent_promises s)))]\<rparr>)"
  by (simp add: begin_getWebSearchAgent_def begin_createWebSearchAgent_eq
      return_agent_promise_def Let_def)

lemma follows_append2: "follows ps p w \<Longrightarrow> follows (ps @ [Pending, Pending]) p w"
  using follows_append [OF follows_append, of ps p w] by simp

lemma follows_new2: "follows (ps @ [Pending, Pending]) (length ps) (Suc (length ps))"
  by (simp add: follows_def outcome_def nth_append)

lemma loop_inv_initial: "loop_inv loop_initial"
  by (simp add: loop_inv_def loop_initial_def)

lemma loop_inv_createWebSearchAgent:
  "loop_inv s \<Longrightarrow> loop_inv (snd (begin_createWebSearchAgent From_outside s))"
  by (auto simp: loop_inv_def begin_createWebSearchAgent_eq follows_append
      split: option.splits)

lemma loop_inv_getMastra: "loop_inv s \<Longrightarrow> loop_inv (snd (begin_getMastra s))"
proof (cases "loop_mastraPromise s")
  case None
  assume "loop_inv s"
  with None show ?thesis
    by (auto simp: loop_inv_def begin_getMastra_fresh follows_append follows_append2 follows_new2
        split: option.splits)
next
  case (Some m)
  assume "loop_inv s"
  with Some show ?thesis
    by (auto simp: loop_inv_def begin_getMastra_cached follows_append follows_new
        split: option.splits)
qed

lemma loop_inv_getWebSearchAgent: "loop_inv s \<Longrightarrow> loop_inv (snd (begin_getWebSearchAgent s))"
proof (cases "loop_webSearchAgentPromise s")
  case None
  assume "loop_inv s"
  with None show ?thesis
    by (auto simp: loop_inv_def begin_getWebSearchAgent_fresh follows_append follows_append2
        follows_new2 split: option.splits)
next
  case (Some a)
  assume "loop_inv s"
  with Some show ?thesis
    by (auto simp: loop_inv_def begin_getWebSearchAgent_cached follows_append follows_new
        split: option.splits)
qed

lemma begin_runWebSearchAgent_state:
  "(\<exists>x. snd (begin_runWebSearchAgent req s) = s\<lparr>result_promises := x\<rparr>)
   \<or> (\<exists>x w q r. snd (begin_runWebSearchAgent req s) =
         (snd (begin_getMastra s))
           \<lparr>result_promises := x,
            tasks := tasks (snd (begin_getMastra s)) @ [Resume_runWebSearchAgent w q r]\<rparr>)"
proof (cases "req_query req")
  case None
  then show ?thesis by (auto simp: begin_runWebSearchAgent_def)
next
  case (Some params)
  show ?thesis
  proof (cases "params ''query''")
    case None
    with Some show ?thesis by (auto simp: begin_runWebSearchAgent_def truthy_def)
  next
    case q: (Some q)
    obtain w s1 where g: "begin_getMastra s = (w, s1)" by (cases "begin_getMastra s")
    show ?thesis
    proof (cases "q = []")
      case True
      with Some q show ?thesis by (auto simp: begin_runWebSearchAgent_def truthy_def)
    next
      case False
      with Some q g have "snd (begin_runWebSearchAgent req s) =
          (snd (begin_getMastra s))
            \<lparr>result_promises := result_promises s1 @ [Pending],
             tasks := tasks (snd (begin_getMastra s))
               @ [Resume_runWebSearchAgent w q (length (result_promises s1))]\<rparr>"
        by (simp add: begin_runWebSearchAgent_def truthy_def Let_def)
      then show ?thesis by blast
    qed
  qed
qed

lemma loop_inv_results:
  "loop_inv s \<Longrightarrow> loop_inv (s\<lparr>result_promises := x\<rparr>)"
  by (simp add: loop_inv_def split: option.splits)

lemma loop_inv_results_task:
  "loop_inv s \<Longrightarrow>
   loop_inv (s\<lparr>result_promises := x, tasks := tasks s @ [Resume_runWebSearchAgent w q r]\<rparr>)"
  by (auto simp: loop_inv_def split: option.splits)

lemma loop_inv_runWebSearchAgent:
  assumes "loop_inv s"
  shows "loop_inv (snd (begin_runWebSearchAgent req s))"
  using begin_runWebSearchAgent_state [of req s] loop_inv_results [OF assms]
    loop_inv_results_task [OF loop_inv_getMastra [OF assms]]
  by auto

lemma loop_inv_tools:
  "loop_inv s \<Longrightarrow> loop_inv (s\<lparr>tools_promises := x\<rparr>)"
  by (simp add: loop_inv_def split: option.splits)

lemma target_index:
  "distinct (concat (map f ts)) \<Longrightarrow> i < length ts \<Longrightarrow> j < length ts \<Longrightarrow>
   n \<in> set (f (ts ! i)) \<Longrightarrow> n \<in> set (f (ts ! j)) \<Longrightarrow> i = j"
proof (induction ts arbitrary: i j)
  case Nil
  then show ?case by simp
next
  case (Cons x xs)
  have d: "distinct (concat (map f xs))" and x: "set (f x) \<inter> set (concat (map f xs)) = {}"
    using Cons.prems(1) by auto
  show ?case
  proof (cases i)
    case i0: 0
    show ?thesis
    proof (cases j)
      case 0
      with i0 show ?thesis by simp
    next
      case (Suc j')
      with Cons.prems i0 have "n \<in> set (f x)" "n \<in> set (concat (map f xs))" by auto
      with x show ?thesis by auto
    qed
  next
    case i: (Suc i')
    show ?thesis
    proof (cases j)
      case 0
      with Cons.prems i have "n \<in> set (f x)" "n \<in> set (concat (map f xs))" by auto
      with x show ?thesis by auto
    next
      case (Suc j')
      with Cons.prems i Cons.IH [OF d, of i' j'] show ?thesis by simp
    qed
  qed
qed

lemma mastra_follows_settle:
  assumes "loop_inv s" and "k < length (tasks s)"
    and "n \<in> set (mastra_target (tasks s ! k))"
    and "\<And>p. tasks s ! k = Follow_mastra p n \<Longrightarrow> outcome (mastra_promises s) p = Some r"
    and "Follow_mastra p w \<in> set (tasks s)"
  shows "follows (settle n r (mastra_promises s)) p w"
proof -
  have f: "follows (mastra_promises s) p w"
    using assms(1,5) by (simp add: loop_inv_def)
  show ?thesis
  proof (cases "w = n")
    case False
    with f show ?thesis by (rule follows_settle_other)
  next
    case True
    from assms(5) obtain j where j: "j < length (tasks s)" "tasks s ! j = Follow_mastra p w"
      by (auto simp: in_set_conv_nth)
    have d: "distinct (concat (map mastra_target (tasks s)))"
      using assms(1) by (simp add: loop_inv_def)
    have "n \<in> set (mastra_target (tasks s ! j))" using j True by simp
    with target_index [OF d assms(2) j(1) assms(3)] have "k = j" by simp
    with j True have "tasks s ! k = Follow_mastra p n" by simp
    then have "outcome (mastra_promises s) p = Some r" by (rule assms(4))
    with f True show ?thesis by (simp add: follows_settle_self)
  qed
qed

lemma agent_follows_settle:
  assumes "loop_inv s" and "k < length (tasks s)"
    and "n \<in> set (agent_target (tasks s ! k))"
    and "\<And>p. tasks s ! k = Follow_agent p n \<Longrightarrow> outcome (agent_promises s) p = Some r"
    and "Follow_agent p w \<in> set (tasks s)"
  shows "follows (settle n r (agent_promises s)) p w"
proof -
  have f: "follows (agent_promises s) p w"
    using assms(1,5) by (simp add: loop_inv_def)
  show ?thesis
  proof (cases "w = n")
    case False
    with f show ?thesis by (rule follows_settle_other)
  next
    case True
    from assms(5) obtain j where j: "j < length (tasks s)" "tasks s ! j = Follow_agent p w"
      by (auto simp: in_set_conv_nth)
    have d: "distinct (concat (map agent_target (tasks s)))"
      using assms(1) by (simp add: loop_inv_def)
    have "n \<in> set (agent_target (tasks s ! j))" using j True by simp
    with target_index [OF d assms(2) j(1) assms(3)] have "k = j" by simp
    with j True have "tasks s ! k = Follow_agent p n" by simp
    then have "outcome (agent_promises s) p = Some r" by (rule assms(4))
    with f True show ?thesis by (simp add: follows_settle_self)
  qed
qed

lemma loop_inv_settle_mastra:
  assumes "loop_inv s" and "k < length (tasks s)"
    and "n \<in> set (mastra_target (tasks s ! k))"
    and "\<And>p. tasks s ! k = Follow_mastra p n \<Longrightarrow> outcome (mastra_promises s) p = Some r"
  shows "loop_inv (s\<lparr>mastra_promises := settle n r (mastra_promises s)\<rparr>)"
proof -
  have "\<forall>p w. Follow_mastra p w \<in> set (tasks s) \<longrightarrow>
          follows (settle n r (mastra_promises s)) p w"
    using mastra_follows_settle [OF assms] by blast
  with assms(1) show ?thesis by (simp add: loop_inv_def split: option.splits)
qed

lemma loop_inv_settle_agent:
  assumes "loop_inv s" and "k < length (tasks s)"
    and "n \<in> set (agent_target (tasks s ! k))"
    and "\<And>p. tasks s ! k = Follow_agent p n \<Longrightarrow> outcome (agent_promises s) p = Some r"
  shows "loop_inv (s\<lparr>agent_promises := settle n r (agent_promises s)\<rparr>)"
proof -
  have "\<forall>p w. Follow_agent p w \<in> set (tasks s) \<longrightarrow>
          follows (settle n r (agent_promises s)) p w"
    using agent_follows_settle [OF assms] by blast
  with assms(1) show ?thesis by (simp add: loop_inv_def split: option.splits)
qed

lemma loop_inv_run_done:
  "loop_inv s \<Longrightarrow>
   loop_inv (s\<lparr>result_promises := x, loop_calls := loop_calls s @ map Call_generate sent\<rparr>)"
  by (simp add: loop_inv_def split: option.splits)

lemma loop_inv_resume:
  assumes "loop_inv s" and "k < length (tasks s)"
  shows "loop_inv (resume e (tasks s ! k) s)"
proof (cases "tasks s ! k")
  case (Resume_createWebSearchAgent t a)
  show ?thesis
  proof (cases "outcome (tools_promises s) t")
    case None
    with Resume_createWebSearchAgent assms(1) show ?thesis by simp
  next
    case (Some r)
    with Resume_createWebSearchAgent
      loop_inv_settle_agent [OF assms, of a]
    show ?thesis by simp
  qed
next
  case (Resume_initializeMastra a m)
  show ?thesis
  proof (cases "outcome (agent_promises s) a")
    case None
    with Resume_initializeMastra assms(1) show ?thesis by simp
  next
    case (Some r)
    with Resume_initializeMastra
      loop_inv_settle_mastra [OF assms, of m]
    show ?thesis by simp
  qed
next
  case (Follow_mastra p w)
  show ?thesis
  proof (cases "outcome (mastra_promises s) p")
    case None
    with Follow_mastra assms(1) show ?thesis by simp
  next
    case (Some r)
    with Follow_mastra loop_inv_settle_mastra [OF assms, of w r]
    show ?thesis by simp
  qed
next
  case (Follow_agent p w)
  show ?thesis
  proof (cases "outcome (agent_promises s) p")
    case None
    with Follow_agent assms(1) show ?thesis by simp
  next
    case (Some r)
    with Follow_agent loop_inv_settle_agent [OF assms, of w r]
    show ?thesis by simp
  qed
next
  case (Resume_runWebSearchAgent w q r)
  show ?thesis
  proof (cases "outcome (mastra_promises s) w")
    case None
    with Resume_runWebSearchAgent assms(1) show ?thesis by simp
  next
    case got: (Some got)
    show ?thesis
    proof (cases "outcome (result_promises s) r")
      case (Some res)
      with Resume_runWebSearchAgent got assms(1) show ?thesis by simp
    next
      case None
      obtain sent res where f: "finish_run e got q = (sent, res)"
        by (cases "finish_run e got q")
      with Resume_runWebSearchAgent got None loop_inv_run_done [OF assms(1)]
      show ?thesis by simp
    qed
  qed
qed

lemma loop_inv_step: "loop_inv s \<Longrightarrow> loop_inv (loop_step ev s)"
proof (cases ev)
  case (Invoke c)
  assume "loop_inv s"
  with Invoke show ?thesis
    by (cases c)
      (simp_all add: loop_inv_createWebSearchAgent loop_inv_getMastra loop_inv_getWebSearchAgent
        loop_inv_runWebSearchAgent)
next
  case (Tools_settle t r)
  assume "loop_inv s"
  with Tools_settle show ?thesis by (simp add: loop_inv_tools)
next
  case (Resume k e)
  assume "loop_inv s"
  with Resume show ?thesis by (simp add: loop_inv_resume)
qed

lemma loop_inv_run_events: "loop_inv s \<Longrightarrow> loop_inv (run_events evs s)"
  unfolding run_events_def
  by (induction evs arbitrary: s) (simp_all add: loop_inv_step)

lemma loop_reachable_inv: "loop_inv (run_events evs loop_initial)"
  by (rule loop_inv_run_events [OF loop_inv_initial])

lemma caches_resume:
  "loop_mastraPromise (resume e t s) = loop_mastraPromise s"
  "loop_webSearchAgentPromise (resume e t s) = loop_webSearchAgentPromise s"
  by (cases t; simp split: option.splits prod.splits)+

lemma loop_mastraPromise_getMastra:
  "loop_mastraPromise s = Some m \<Longrightarrow> loop_mastraPromise (snd (begin_getMastra s)) = Some m"
  by (simp add: begin_getMastra_cached)

lemma loop_mastraPromise_getWebSearchAgent:
  "loop_mastraPromise (snd (begin_getWebSearchAgent s)) = loop_mastraPromise s"
  by (cases "loop_webSearchAgentPromise s")
    (simp_all add: begin_getWebSearchAgent_fresh begin_getWebSearchAgent_cached)

lemma loop_webSearchAgentPromise_getMastra:
  "loop_webSearchAgentPromise (snd (begin_getMastra s)) = loop_webSearchAgentPromise s"
  by (cases "loop_mastraPromise s") (simp_all add: begin_getMastra_fresh begin_getMastra_cached)

lemma loop_webSearchAgentPromise_getWebSearchAgent:
  "loop_webSearchAgentPromise s = Some a \<Longrightarrow>
   loop_webSearchAgentPromise (snd (begin_getWebSearchAgent s)) = Some a"
  by (simp add: begin_getWebSearchAgent_cached)

lemma loop_mastraPromise_step:
  assumes "loop_mastraPromise s = Some m"
  shows "loop_mastraPromise (loop_step ev s) = Some m"
proof (cases ev)
  case (Invoke c)
  show ?thesis
  proof (cases c)
    case CreateWebSearchAgent
    with Invoke assms show ?thesis by (simp add: begin_createWebSearchAgent_eq)
  next
    case GetMastra
    with Invoke assms show ?thesis by (simp add: loop_mastraPromise_getMastra)
  next
    case GetWebSearchAgent
    with Invoke assms show ?thesis by (simp add: loop_mastraPromise_getWebSearchAgent)
  next
    case (RunWebSearchAgent req)
    with Invoke assms begin_runWebSearchAgent_state [of req s]
      loop_mastraPromise_getMastra [OF assms]
    show ?thesis by auto
  qed
next
  case (Tools_settle t r)
  with assms show ?thesis by simp
next
  case (Resume k e)
  with assms show ?thesis by (simp add: caches_resume)
qed

lemma loop_webSearchAgentPromise_step:
  assumes "loop_webSearchAgentPromise s = Some a"
  shows "loop_webSearchAgentPromise (loop_step ev s) = Some a"
proof (cases ev)
  case (Invoke c)
  show ?thesis
  proof (cases c)
    case CreateWebSearchAgent
    with Invoke assms show ?thesis by (simp add: begin_createWebSearchAgent_eq)
  next
    case GetMastra
    with Invoke assms show ?thesis by (simp add: loop_webSearchAgentPromise_getMastra)
  next
    case GetWebSearchAgent
    with Invoke assms show ?thesis by (simp add: loop_webSearchAgentPromise_getWebSearchAgent)
  next
    case (RunWebSearchAgent req)
    with Invoke assms begin_runWebSearchAgent_state [of req s]
      loop_webSearchAgentPromise_getMastra [of s]
    show ?thesis by auto
  qed
next
  case (Tools_settle t r)
  with assms show ?thesis by simp
next
  case (Resume k e)
  with assms show ?thesis by (simp add: caches_resume)
qed

lemma loop_mastraPromise_run_events:
  "loop_mastraPromise s = Some m \<Longrightarrow> loop_mastraPromise (run_events evs s) = Some m"
  unfolding run_events_def
  by (induction evs arbitrary: s) (simp_all add: loop_mastraPromise_step)

lemma loop_webSearchAgentPromise_run_events:
  "loop_webSearchAgentPromise s = Some a \<Longrightarrow>
   loop_webSearchAgentPromise (run_events evs s) = Some a"
  unfolding run_events_def
  by (induction evs arbitrary: s) (simp_all add: loop_webSearchAgentPromise_step)

subsection \<open>The two grains agree on a first call\<close>

lemma run_events_simps:
  "run_events [] s = s"
  "run_events (ev # evs) s = run_events evs (loop_step ev s)"
  by (simp_all add: run_events_def)

lemma first_getMastra_agrees:
  "outcome (mastra_promises
      (run_events [Invoke GetMastra, Tools_settle 0 (getTools e), Resume 0 e, Resume 1 e,
                   Resume 2 e] loop_initial)) 1
     = Some (settled (fst (getMastra e initial_state)))
   \<and> loop_calls
      (run_events [Invoke GetMastra, Tools_settle 0 (getTools e), Resume 0 e, Resume 1 e,
                   Resume 2 e] loop_initial)
     = calls (snd (getMastra e initial_state))"
  by (cases "getTools e")
    (simp_all add: run_events_simps begin_getMastra_fresh loop_initial_def outcome_def settle_def
      getMastra_fresh initial_state_def initializeMastra_settled initializeMastra_state)

lemma first_run_agrees:
  "outcome (result_promises
      (run_events [Invoke (RunWebSearchAgent req), Tools_settle 0 (getTools e), Resume 0 e,
                   Resume 1 e, Resume 2 e, Resume 3 e] loop_initial)) 0
     = Some (fst (runWebSearchAgent e initial_state req))
   \<and> loop_calls
      (run_events [Invoke (RunWebSearchAgent req), Tools_settle 0 (getTools e), Resume 0 e,
                   Resume 1 e, Resume 2 e, Resume 3 e] loop_initial)
     = calls (snd (runWebSearchAgent e initial_state req))"
proof (cases "req_query req")
  case None
  then show ?thesis
    by (simp add: run_events_simps begin_runWebSearchAgent_def runWebSearchAgent_def
        loop_initial_def initial_state_def outcome_def settle_def)
next
  case (Some params)
  show ?thesis
  proof (cases "truthy (params ''query'')")
    case False
    with Some show ?thesis
      by (simp add: run_events_simps begin_runWebSearchAgent_def runWebSearchAgent_def
          loop_initial_def initial_state_def outcome_def settle_def)
  next
    case True
    then obtain q where q: "params ''query'' = Some q" "q \<noteq> []"
      by (auto simp: truthy_def split: option.splits)
    obtain sent r where st: "start e webSearchWorkflow
        \<lparr>start_triggerData = Some \<lparr>query = Some q\<rparr>,
         start_input = Some \<lparr>input_query = Some q\<rparr>,
         start_steps = [''search-step'' \<mapsto> \<lparr>input_query = Some q\<rparr>,
                        ''process-results-step'' \<mapsto> \<lparr>input_query = Some q\<rparr>]\<rparr> = (sent, r)"
      by (cases "start e webSearchWorkflow
        \<lparr>start_triggerData = Some \<lparr>query = Some q\<rparr>,
         start_input = Some \<lparr>input_query = Some q\<rparr>,
         start_steps = [''search-step'' \<mapsto> \<lparr>input_query = Some q\<rparr>,
                        ''process-results-step'' \<mapsto> \<lparr>input_query = Some q\<rparr>]\<rparr>")
    have w: "getWorkflow mastra_instance ''web-search-workflow'' = Inr webSearchWorkflow"
      by (simp add: getWorkflow_def mastra_instance_def)
    show ?thesis
      using Some q True
      by (cases "getTools e"; cases r)
        (simp_all add: run_events_simps begin_runWebSearchAgent_def runWebSearchAgent_def
          run_workflow_def begin_getMastra_fresh getMastra_fresh initializeMastra_settled
          initializeMastra_state loop_initial_def initial_state_def outcome_def settle_def
          finish_run_def failure_message_def w st Let_def)
  qed
qed

section \<open>The claims\<close>

subsection \<open>C1: a run with a query succeeds with a non-empty answer\<close>

text \<open>
  Claim C1 says that every request with a non-empty query gets \<^verbatim>\<open>success: true\<close>
  and a non-empty answer. The result depends on the initialisation as well: when tool
  provisioning has failed, in this call or in an earlier one whose rejected promise
  stays in \<^verbatim>\<open>mastraPromise\<close>, the \<^verbatim>\<open>await\<close> of line 220 throws and the result is
  \<^verbatim>\<open>success: false\<close>, also for a run made when the environment is sound again.
\<close>

theorem run_with_query_fails_counterexample:
  "fst (runWebSearchAgent (env_no_tools (ErrorInstance ''spawn npx ENOENT'')) initial_state
          \<lparr>req_query = Some [''query'' \<mapsto> ''What is the capital of Japan?'']\<rparr>)
     = Inr (RunFailure ''spawn npx ENOENT'')
   \<and> fst (runWebSearchAgent env_configured
          (exec_calls [(env_no_tools (ErrorInstance ''spawn npx ENOENT''), GetMastra)]
             initial_state)
          \<lparr>req_query = Some [''query'' \<mapsto> ''What is the capital of Japan?'']\<rparr>)
     = Inr (RunFailure ''spawn npx ENOENT'')"
  by (simp add: runWebSearchAgent_def run_workflow_def exec_calls_def getMastra_def
      initializeMastra_def createWebSearchAgent_def new_promise_def initial_state_def
      env_no_tools_def env_configured_def truthy_def Let_def)

text \<open>
  Claim C1, amended. For every request whose query is a non-empty string, in any state
  the process can be in, once the initialisation has succeeded (the promise that
  \<^verbatim>\<open>getMastra\<close> yields is fulfilled), \<^verbatim>\<open>runWebSearchAgent\<close> returns
  \<^verbatim>\<open>success: true\<close> with a non-empty answer string on each branch of the
  process-results step: the credential is not configured, the agent answers, or the
  agent fails with a thrown value whose \<^verbatim>\<open>message\<close> can be read, that is, any value
  but \<^verbatim>\<open>null\<close> and \<^verbatim>\<open>undefined\<close>.
\<close>

theorem run_with_query_succeeds:
  assumes "q \<noteq> []" and "params ''query'' = Some q"
    and "settled (fst (getMastra e (exec_calls cs initial_state))) = Inr m"
    and "invalid_api_key e \<or> generate e q \<noteq> Inl Nullish"
  shows "\<exists>a. fst (runWebSearchAgent e (exec_calls cs initial_state) \<lparr>req_query = Some params\<rparr>)
               = Inr (RunSuccess (Some (AnswerOutput a))) \<and> a \<noteq> []"
proof -
  have "\<exists>a. snd (invoke_agent e q) = Inr (AnswerOutput a) \<and> a \<noteq> []"
  proof (cases "invalid_api_key e")
    case True
    then show ?thesis by (simp add: invoke_agent_invalid_key canned_answer_nonempty)
  next
    case False
    with assms(4) have "generate e q \<noteq> Inl Nullish" by simp
    then show ?thesis by (rule invoke_agent_answer)
  qed
  then obtain a where a: "snd (invoke_agent e q) = Inr (AnswerOutput a)" "a \<noteq> []"
    by blast
  have "fst (runWebSearchAgent e (exec_calls cs initial_state) \<lparr>req_query = Some params\<rparr>)
          = Inr (RunSuccess (Some (AnswerOutput a)))"
    using runWebSearchAgent_ready [of "exec_calls cs initial_state" e m q params]
      reachable_inv [of cs] assms(1-3) a(1)
    by simp
  with a(2) show ?thesis by blast
qed

theorem run_with_query_succeeds_witness:
  "''What is the capital of Japan?'' \<noteq> []
   \<and> [''query'' \<mapsto> ''What is the capital of Japan?''] ''query''
       = Some ''What is the capital of Japan?''
   \<and> settled (fst (getMastra env_configured (exec_calls [] initial_state))) = Inr mastra_instance
   \<and> (invalid_api_key env_configured
        \<or> generate env_configured ''What is the capital of Japan?'' \<noteq> Inl Nullish)
   \<and> (\<exists>a. fst (runWebSearchAgent env_configured (exec_calls [] initial_state)
                 \<lparr>req_query = Some [''query'' \<mapsto> ''What is the capital of Japan?'']\<rparr>)
             = Inr (RunSuccess (Some (AnswerOutput a))) \<and> a \<noteq> [])"
proof -
  have h3: "settled (fst (getMastra env_configured (exec_calls [] initial_state)))
              = Inr mastra_instance"
    by (simp add: exec_calls_Nil getMastra_initial [of _ "[]"] env_configured_def)
  have h4: "invalid_api_key env_configured
              \<or> generate env_configured ''What is the capital of Japan?'' \<noteq> Inl Nullish"
    by (simp add: env_configured_def)
  show ?thesis
    using h3 h4
      run_with_query_succeeds [of "''What is the capital of Japan?''"
        "[''query'' \<mapsto> ''What is the capital of Japan?'']" env_configured "[]" mastra_instance]
    by simp
qed

subsection \<open>C2: a request with an empty or absent query\<close>

text \<open>
  Claim C2 says that a run with an empty or absent query still ends with
  \<^verbatim>\<open>success: true\<close> and a degraded answer. The entry point checks the query first
  (lines 211-216): for the empty query and for the absent one the result is
  \<^verbatim>\<open>{success: false, error: 'No prompt provided'}\<close>.
\<close>

theorem empty_query_run_counterexample:
  "fst (runWebSearchAgent env_unconfigured initial_state \<lparr>req_query = Some [''query'' \<mapsto> '''']\<rparr>)
     = Inr (RunFailure ''No prompt provided'')
   \<and> fst (runWebSearchAgent env_unconfigured initial_state \<lparr>req_query = Some Map.empty\<rparr>)
     = Inr (RunFailure ''No prompt provided'')"
  by (simp add: runWebSearchAgent_def truthy_def)

text \<open>
  Claim C2, amended. For a request whose query is empty or absent,
  \<^verbatim>\<open>runWebSearchAgent\<close> does not start the workflow: it returns
  \<^verbatim>\<open>{success: false, error: 'No prompt provided'}\<close>, raises no exception and leaves
  the module state as it was.
\<close>

theorem empty_query_rejected:
  assumes "\<not> truthy (params ''query'')"
  shows "runWebSearchAgent e st \<lparr>req_query = Some params\<rparr>
           = (Inr (RunFailure ''No prompt provided''), st)"
  using assms by (simp add: runWebSearchAgent_def)

theorem empty_query_rejected_witness:
  "\<not> truthy ([''query'' \<mapsto> ''''] ''query'')
   \<and> runWebSearchAgent env_configured initial_state \<lparr>req_query = Some [''query'' \<mapsto> '''']\<rparr>
       = (Inr (RunFailure ''No prompt provided''), initial_state)"
  using empty_query_rejected [of "[''query'' \<mapsto> '''']" env_configured initial_state]
  by (simp add: truthy_def)

subsection \<open>C3: which layer a step takes its query from\<close>

text \<open>
  Claim C3 says that a per-step override wins over the preceding step's output, which
  wins over the trigger data. With the three layers set to different queries, neither
  step resolves to the override: the process-results step reads lines 126-128 and the
  search step line 98, and no line reads the per-step input.
\<close>

theorem resolution_precedence_counterexample:
  "process_query (layered_context (Some ''override'') (Some ''previous'') (Some ''trigger''))
     \<noteq> Some ''override''
   \<and> trigger_query (layered_context (Some ''override'') (Some ''previous'') (Some ''trigger''))
     \<noteq> Some ''override''"
  by (simp add: process_query_def previous_step_query_def trigger_query_def layered_context_def
      js_or_def truthy_def)

text \<open>
  Claim C3, amended. The steps do not consult per-step overrides. Whatever override is
  present, the process-results step resolves to the search step's output query when
  that is non-empty and, with that output removed, to the trigger data's query; the
  search step resolves to the trigger data's query, whatever the other layers hold.
\<close>

theorem resolution_ignores_overrides:
  assumes "prev \<noteq> []"
  shows "process_query (layered_context ov (Some prev) (Some trig)) = Some prev
       \<and> process_query (layered_context ov None (Some trig)) = Some trig
       \<and> trigger_query (layered_context ov p (Some trig)) = Some trig"
  using assms
  by (simp add: process_query_def previous_step_query_def trigger_query_def layered_context_def
      js_or_def truthy_def split: option.splits)

theorem resolution_ignores_overrides_witness:
  "''previous'' \<noteq> []
   \<and> process_query (layered_context (Some ''override'') (Some ''previous'') (Some ''trigger''))
       = Some ''previous''
   \<and> process_query (layered_context (Some ''override'') None (Some ''trigger'')) = Some ''trigger''
   \<and> trigger_query (layered_context (Some ''override'') (Some ''previous'') (Some ''trigger''))
       = Some ''trigger''"
  using resolution_ignores_overrides
    [of "''previous''" "Some ''override''" "''trigger''" "Some ''previous''"]
  by simp

subsection \<open>C4: a run whose trigger query is the empty string\<close>

text \<open>
  Claim C4 says that the run with trigger data \<^verbatim>\<open>{query: ""}\<close> ends with the fixed
  no-query answer. The search step replaces the empty query by its placeholder, and the
  process-results step takes the placeholder for the query: without a credential the
  final answer is the canned one, and with a credential the placeholder is sent to the
  agent.
\<close>

theorem empty_trigger_final_answer_counterexample:
  "snd (start env_unconfigured webSearchWorkflow
          \<lparr>start_triggerData = Some \<lparr>query = Some ''''\<rparr>, start_input = None,
           start_steps = Map.empty\<rparr>)
     \<noteq> Inr (Some (AnswerOutput no_query_response))
   \<and> start env_configured webSearchWorkflow
          \<lparr>start_triggerData = Some \<lparr>query = Some ''''\<rparr>, start_input = None,
           start_steps = Map.empty\<rparr>
     = ([''No query provided, using default search''],
        Inr (Some (AnswerOutput (JSON_stringify ''Tokyo''))))"
proof -
  have f: "\<not> truthy (Some '''')" by (simp add: truthy_def)
  have u: "invalid_api_key env_unconfigured"
    by (simp add: invalid_api_key_def env_unconfigured_def truthy_def)
  have c: "\<not> invalid_api_key env_configured"
    by (simp add: invalid_api_key_def env_configured_def truthy_def)
  have g: "generate env_configured no_query_search = Inr ''Tokyo''"
    by (simp add: env_configured_def)
  have n: "no_query_search = ''No query provided, using default search''"
    by (simp add: no_query_search_def)
  show ?thesis
    using canned_not_default
    by (simp add: start_falsy [OF f] invoke_agent_invalid_key [OF u]
        invoke_agent_text [OF c g] n [symmetric])
qed

text \<open>
  Claim C4, amended. For a run whose trigger data is \<^verbatim>\<open>{query: ""}\<close>, the first
  step's output is \<^verbatim>\<open>{query: "No query provided, using default search"}\<close>, and the
  final answer is the one lines 139-170 give for that placeholder taken as the query:
  the canned answer when the credential is not configured, and otherwise what the call
  of the agent with the placeholder yields.
\<close>

theorem empty_trigger_uses_placeholder_query:
  "searchStep_execute
     \<lparr>inner_context = Some \<lparr>triggerData = Some \<lparr>query = Some ''''\<rparr>, steps = s, stepOverrides = ov\<rparr>\<rparr>
     = QueryOutput ''No query provided, using default search''
   \<and> start e webSearchWorkflow
        \<lparr>start_triggerData = Some \<lparr>query = Some ''''\<rparr>, start_input = i, start_steps = ov\<rparr>
     = map_prod id (map_sum id Some)
         (invoke_agent e ''No query provided, using default search'')
   \<and> (invalid_api_key e \<longrightarrow>
        start e webSearchWorkflow
          \<lparr>start_triggerData = Some \<lparr>query = Some ''''\<rparr>, start_input = i, start_steps = ov\<rparr>
        = ([], Inr (Some (AnswerOutput canned_answer))))"
proof -
  have f: "\<not> truthy (Some '''')" by (simp add: truthy_def)
  have n: "no_query_search = ''No query provided, using default search''"
    by (simp add: no_query_search_def)
  have 1: "searchStep_execute
     \<lparr>inner_context = Some \<lparr>triggerData = Some \<lparr>query = Some ''''\<rparr>, steps = s, stepOverrides = ov\<rparr>\<rparr>
     = QueryOutput ''No query provided, using default search''"
    by (simp add: searchStep_execute_def trigger_query_def no_query_search_def)
  have 2: "start e webSearchWorkflow
        \<lparr>start_triggerData = Some \<lparr>query = Some ''''\<rparr>, start_input = i, start_steps = ov\<rparr>
     = map_prod id (map_sum id Some)
         (invoke_agent e ''No query provided, using default search'')"
    using start_falsy [OF f, of e i ov] by (simp only: n)
  have 3: "start e webSearchWorkflow
          \<lparr>start_triggerData = Some \<lparr>query = Some ''''\<rparr>, start_input = i, start_steps = ov\<rparr>
        = ([], Inr (Some (AnswerOutput canned_answer)))" if "invalid_api_key e"
    by (simp only: 2 invoke_agent_invalid_key [OF that]) simp
  from 1 2 3 show ?thesis by blast
qed

theorem empty_trigger_uses_placeholder_query_witness:
  "invalid_api_key env_unconfigured
   \<and> start env_unconfigured webSearchWorkflow
        \<lparr>start_triggerData = Some \<lparr>query = Some ''''\<rparr>, start_input = None,
         start_steps = Map.empty\<rparr>
     = ([], Inr (Some (AnswerOutput canned_answer)))"
proof -
  have u: "invalid_api_key env_unconfigured"
    by (simp add: invalid_api_key_def env_unconfigured_def truthy_def)
  with empty_trigger_uses_placeholder_query [of None Map.empty env_unconfigured None]
  show ?thesis by blast
qed

subsection \<open>C5: no agent call without a credential\<close>

text \<open>
  Claim C5. When the model credential is absent or is \<^verbatim>\<open>'dummy-key'\<close>, the
  process-results step sends nothing to the agent and returns a fixed answer: the canned
  one whenever it has a query to work on (the no-query answer of line 135 otherwise).
  For the trigger \<^verbatim>\<open>{query: "What is the capital of Japan?"}\<close> the driver returns the
  canned answer, and so does \<^verbatim>\<open>runWebSearchAgent\<close>, with \<^verbatim>\<open>success: true\<close>, in
  any state of the process in which \<^verbatim>\<open>getMastra\<close> yields a fulfilled promise.
\<close>

theorem unconfigured_credential_skips_agent:
  assumes "ANTHROPIC_API_KEY e = None \<or> ANTHROPIC_API_KEY e = Some ''dummy-key''"
  shows "processResultsStep_execute e c =
           ([], Inr (AnswerOutput (if truthy (process_query c) then canned_answer
                                   else no_query_response)))
       \<and> start e webSearchWorkflow
            \<lparr>start_triggerData = Some \<lparr>query = Some ''What is the capital of Japan?''\<rparr>,
             start_input = i, start_steps = ov\<rparr>
          = ([], Inr (Some (AnswerOutput canned_answer)))
       \<and> (\<forall>m. settled (fst (getMastra e (exec_calls cs initial_state))) = Inr m \<longrightarrow>
             fst (runWebSearchAgent e (exec_calls cs initial_state)
                    \<lparr>req_query = Some [''query'' \<mapsto> ''What is the capital of Japan?'']\<rparr>)
             = Inr (RunSuccess (Some (AnswerOutput canned_answer))))"
proof -
  have k: "invalid_api_key e"
    using assms by (auto simp: invalid_api_key_def truthy_def)
  have ne: "''What is the capital of Japan?'' \<noteq> []" by simp
  have 1: "processResultsStep_execute e c =
           ([], Inr (AnswerOutput (if truthy (process_query c) then canned_answer
                                   else no_query_response)))"
    by (simp add: processResultsStep_execute_def truthy_def invoke_agent_invalid_key [OF k]
        split: option.splits)
  have 2: "start e webSearchWorkflow
            \<lparr>start_triggerData = Some \<lparr>query = Some ''What is the capital of Japan?''\<rparr>,
             start_input = i, start_steps = ov\<rparr>
          = ([], Inr (Some (AnswerOutput canned_answer)))"
    by (simp add: start_nonempty [OF ne] invoke_agent_invalid_key [OF k])
  have 3: "fst (runWebSearchAgent e (exec_calls cs initial_state)
                    \<lparr>req_query = Some [''query'' \<mapsto> ''What is the capital of Japan?'']\<rparr>)
             = Inr (RunSuccess (Some (AnswerOutput canned_answer)))"
    if "settled (fst (getMastra e (exec_calls cs initial_state))) = Inr m" for m
    using runWebSearchAgent_ready [of "exec_calls cs initial_state" e m
        "''What is the capital of Japan?''" "[''query'' \<mapsto> ''What is the capital of Japan?'']"]
      reachable_inv [of cs] that
    by (simp add: invoke_agent_invalid_key [OF k])
  from 1 2 3 show ?thesis by blast
qed

theorem unconfigured_credential_skips_agent_witness:
  "(ANTHROPIC_API_KEY env_unconfigured = None
      \<or> ANTHROPIC_API_KEY env_unconfigured = Some ''dummy-key'')
   \<and> settled (fst (getMastra env_unconfigured (exec_calls [] initial_state)))
       = Inr mastra_instance
   \<and> processResultsStep_execute env_unconfigured
        (layered_context None None (Some ''What is the capital of Japan?''))
       = ([], Inr (AnswerOutput canned_answer))
   \<and> fst (runWebSearchAgent env_unconfigured (exec_calls [] initial_state)
            \<lparr>req_query = Some [''query'' \<mapsto> ''What is the capital of Japan?'']\<rparr>)
       = Inr (RunSuccess (Some (AnswerOutput canned_answer)))"
proof -
  have h: "ANTHROPIC_API_KEY env_unconfigured = None
             \<or> ANTHROPIC_API_KEY env_unconfigured = Some ''dummy-key''"
    by (simp add: env_unconfigured_def)
  have s: "settled (fst (getMastra env_unconfigured (exec_calls [] initial_state)))
             = Inr mastra_instance"
    by (simp add: exec_calls_Nil getMastra_initial [of _ "[]"] env_unconfigured_def)
  have t: "truthy (process_query (layered_context None None (Some ''What is the capital of Japan?'')))"
    by (simp add: process_query_def previous_step_query_def trigger_query_def
        layered_context_def js_or_def truthy_def)
  show ?thesis
    using h s t
      unconfigured_credential_skips_agent [OF h,
        of "layered_context None None (Some ''What is the capital of Japan?'')" None Map.empty "[]"]
    by simp
qed

subsection \<open>C6: an error of the agent is turned into an answer\<close>

text \<open>
  Claim C6. When the call of the agent inside the process-results step raises an error,
  the step catches it and returns the answer made of the fixed explanation followed by
  the error's message; nothing is thrown out of the step, and the run that
  \<^verbatim>\<open>runWebSearchAgent\<close> makes for that query ends with \<^verbatim>\<open>success: true\<close> and this
  answer. The error is any thrown value whose \<^verbatim>\<open>message\<close> can be read (line 168);
  the message enters the answer as the template literal renders it.
\<close>

theorem agent_error_is_caught:
  assumes "process_query c = Some q" and "q \<noteq> []" and "\<not> invalid_api_key e"
    and "generate e q = Inl error" and "get_message error = Inr m"
  shows "processResultsStep_execute e c =
           ([q], Inr (AnswerOutput (error_prefix @ template_string m)))
       \<and> (\<forall>mi. settled (fst (getMastra e (exec_calls cs initial_state))) = Inr mi \<longrightarrow>
             fst (runWebSearchAgent e (exec_calls cs initial_state)
                    \<lparr>req_query = Some [''query'' \<mapsto> q]\<rparr>)
             = Inr (RunSuccess (Some (AnswerOutput (error_prefix @ template_string m)))))"
proof -
  have ia: "invoke_agent e q = ([q], Inr (AnswerOutput (error_prefix @ template_string m)))"
    using assms(3-5) by (rule invoke_agent_caught)
  have 1: "processResultsStep_execute e c =
           ([q], Inr (AnswerOutput (error_prefix @ template_string m)))"
    using assms(1,2) by (simp add: processResultsStep_execute_def ia)
  have 2: "fst (runWebSearchAgent e (exec_calls cs initial_state)
                    \<lparr>req_query = Some [''query'' \<mapsto> q]\<rparr>)
             = Inr (RunSuccess (Some (AnswerOutput (error_prefix @ template_string m))))"
    if "settled (fst (getMastra e (exec_calls cs initial_state))) = Inr mi" for mi
    using runWebSearchAgent_ready [of "exec_calls cs initial_state" e mi q "[''query'' \<mapsto> q]"]
      reachable_inv [of cs] that assms(2)
    by (simp add: ia)
  from 1 2 show ?thesis by blast
qed

theorem agent_error_is_caught_witness:
  "process_query (layered_context None (Some ''weather'') (Some ''weather'')) = Some ''weather''
   \<and> ''weather'' \<noteq> []
   \<and> \<not> invalid_api_key env_timeout
   \<and> generate env_timeout ''weather'' = Inl (ErrorInstance ''NetworkTimeout'')
   \<and> get_message (ErrorInstance ''NetworkTimeout'') = Inr (Some ''NetworkTimeout'')
   \<and> settled (fst (getMastra env_timeout (exec_calls [] initial_state))) = Inr mastra_instance
   \<and> processResultsStep_execute env_timeout
        (layered_context None (Some ''weather'') (Some ''weather''))
       = ([''weather''], Inr (AnswerOutput (error_prefix @ ''NetworkTimeout'')))
   \<and> fst (runWebSearchAgent env_timeout (exec_calls [] initial_state)
            \<lparr>req_query = Some [''query'' \<mapsto> ''weather'']\<rparr>)
       = Inr (RunSuccess (Some (AnswerOutput (error_prefix @ ''NetworkTimeout''))))"
proof -
  have a: "process_query (layered_context None (Some ''weather'') (Some ''weather''))
             = Some ''weather''"
    by (simp add: process_query_def previous_step_query_def trigger_query_def
        layered_context_def js_or_def truthy_def)
  have b: "''weather'' \<noteq> []" by simp
  have c: "\<not> invalid_api_key env_timeout"
    by (simp add: invalid_api_key_def env_timeout_def truthy_def)
  have d: "generate env_timeout ''weather'' = Inl (ErrorInstance ''NetworkTimeout'')"
    by (simp add: env_timeout_def)
  have f: "get_message (ErrorInstance ''NetworkTimeout'') = Inr (Some ''NetworkTimeout'')"
    by simp
  have s: "settled (fst (getMastra env_timeout (exec_calls [] initial_state)))
             = Inr mastra_instance"
    by (simp add: exec_calls_Nil getMastra_initial [of _ "[]"] env_timeout_def)
  show ?thesis
    using a b c d f s agent_error_is_caught [OF a b c d f, of "[]"]
    by (simp add: template_string_def)
qed

subsection \<open>C7: an exception that escapes the workflow\<close>

text \<open>
  Claim C7 says that every exception escaping the body of the \<^verbatim>\<open>try\<close> block is
  reported as \<^verbatim>\<open>{success: false, error: <its message>}\<close>. Line 258 reports the
  message of an \<^verbatim>\<open>Error\<close> instance only: when tool provisioning throws the plain
  object \<^verbatim>\<open>{message: 'boom'}\<close>, that object escapes, and the reported error is the
  fixed text, not \<^verbatim>\<open>'boom'\<close>.
\<close>

theorem escaping_exception_message_counterexample:
  "fst (run_workflow (env_no_tools (NonError (Some ''boom''))) initial_state ''weather'')
     = Inl (NonError (Some ''boom''))
   \<and> fst (runWebSearchAgent (env_no_tools (NonError (Some ''boom''))) initial_state
            \<lparr>req_query = Some [''query'' \<mapsto> ''weather'']\<rparr>)
     = Inr (RunFailure ''Failed to run web search agent'')
   \<and> fst (runWebSearchAgent (env_no_tools (NonError (Some ''boom''))) initial_state
            \<lparr>req_query = Some [''query'' \<mapsto> ''weather'']\<rparr>)
     \<noteq> Inr (RunFailure ''boom'')"
proof -
  have r: "fst (run_workflow (env_no_tools (NonError (Some ''boom''))) initial_state ''weather'')
     = Inl (NonError (Some ''boom''))"
    by (rule run_workflow_no_tools)
  obtain x st1 where p: "run_workflow (env_no_tools (NonError (Some ''boom''))) initial_state
       ''weather'' = (x, st1)"
    by (cases "run_workflow (env_no_tools (NonError (Some ''boom''))) initial_state ''weather''")
  with r have x: "x = Inl (NonError (Some ''boom''))" by simp
  show ?thesis
    by (simp add: r runWebSearchAgent_def truthy_def p x)
qed

text \<open>
  Claim C7, amended. For a request that carries its query parameters,
  \<^verbatim>\<open>runWebSearchAgent\<close> never throws; and for every value thrown out of the body of
  the \<^verbatim>\<open>try\<close> block (lines 219-253) it returns \<^verbatim>\<open>success: false\<close> with, as the
  error, the message of the thrown value when that is an \<^verbatim>\<open>Error\<close> instance and
  the fixed text \<^verbatim>\<open>'Failed to run web search agent'\<close> otherwise.
\<close>

theorem escaping_exception_is_reported:
  "(\<exists>r. fst (runWebSearchAgent e st \<lparr>req_query = Some params\<rparr>) = Inr r)
   \<and> (\<forall>q error. params ''query'' = Some q \<and> q \<noteq> [] \<and> fst (run_workflow e st q) = Inl error \<longrightarrow>
         fst (runWebSearchAgent e st \<lparr>req_query = Some params\<rparr>)
         = Inr (RunFailure (case error of
                              ErrorInstance msg \<Rightarrow> msg
                            | NonError msg \<Rightarrow> ''Failed to run web search agent''
                            | Nullish \<Rightarrow> ''Failed to run web search agent'')))"
proof -
  have 1: "\<exists>r. fst (runWebSearchAgent e st \<lparr>req_query = Some params\<rparr>) = Inr r"
    by (simp add: runWebSearchAgent_def Let_def split: option.splits prod.splits sum.splits)
  have 2: "fst (runWebSearchAgent e st \<lparr>req_query = Some params\<rparr>)
         = Inr (RunFailure (case error of
                              ErrorInstance msg \<Rightarrow> msg
                            | NonError msg \<Rightarrow> ''Failed to run web search agent''
                            | Nullish \<Rightarrow> ''Failed to run web search agent''))"
    if "params ''query'' = Some q" "q \<noteq> []" "fst (run_workflow e st q) = Inl error" for q error
  proof -
    obtain x st1 where p: "run_workflow e st q = (x, st1)" by (cases "run_workflow e st q")
    with that(3) have "x = Inl error" by simp
    with that(1,2) p show ?thesis by (simp add: runWebSearchAgent_def truthy_def)
  qed
  from 1 2 show ?thesis by blast
qed

theorem escaping_exception_is_reported_witness:
  "[''query'' \<mapsto> ''weather''] ''query'' = Some ''weather''
   \<and> ''weather'' \<noteq> []
   \<and> fst (run_workflow (env_no_tools (ErrorInstance ''spawn npx ENOENT'')) initial_state ''weather'')
       = Inl (ErrorInstance ''spawn npx ENOENT'')
   \<and> fst (runWebSearchAgent (env_no_tools (ErrorInstance ''spawn npx ENOENT'')) initial_state
            \<lparr>req_query = Some [''query'' \<mapsto> ''weather'']\<rparr>)
       = Inr (RunFailure ''spawn npx ENOENT'')"
proof -
  have r: "fst (run_workflow (env_no_tools (ErrorInstance ''spawn npx ENOENT'')) initial_state
                 ''weather'') = Inl (ErrorInstance ''spawn npx ENOENT'')"
    by (rule run_workflow_no_tools)
  show ?thesis
    using r escaping_exception_is_reported
      [of "env_no_tools (ErrorInstance ''spawn npx ENOENT'')" initial_state
          "[''query'' \<mapsto> ''weather'']"]
    by simp
qed

subsection \<open>C8: an empty query in the preceding step's output\<close>

text \<open>
  Claim C8 says that an empty query in the search step's output is still used by the
  process-results step. Line 128 joins the two layers with \<^verbatim>\<open>||\<close>: with the output
  query empty and the trigger query \<^verbatim>\<open>'trigger'\<close>, the step works on the trigger
  query and sends it to the agent.
\<close>

theorem empty_previous_query_counterexample:
  "process_query (layered_context None (Some '''') (Some ''trigger'')) \<noteq> Some ''''
   \<and> processResultsStep_execute env_configured
        (layered_context None (Some '''') (Some ''trigger''))
     = ([''trigger''], Inr (AnswerOutput (JSON_stringify ''Tokyo'')))"
proof -
  have p: "process_query (layered_context None (Some '''') (Some ''trigger'')) = Some ''trigger''"
    by (simp add: process_query_def previous_step_query_def trigger_query_def
        layered_context_def js_or_def truthy_def)
  have c: "\<not> invalid_api_key env_configured"
    by (simp add: invalid_api_key_def env_configured_def truthy_def)
  have g: "generate env_configured ''trigger'' = Inr ''Tokyo''"
    by (simp add: env_configured_def)
  show ?thesis
    by (simp add: p processResultsStep_execute_def invoke_agent_text [OF c g])
qed

text \<open>
  Claim C8, amended. When the preceding step's output defines the query as the empty
  string, the process-results step falls through to the trigger data's query, and with
  a non-empty trigger query it goes on to lines 139-170 with that query; the preceding
  step's query is the one used exactly when it is a non-empty string.
\<close>

theorem empty_previous_query_falls_through:
  "(previous_step_query c = Some [] \<longrightarrow> process_query c = trigger_query c)
   \<and> (previous_step_query c = Some [] \<and> trigger_query c = Some t \<and> t \<noteq> [] \<longrightarrow>
        processResultsStep_execute e c = invoke_agent e t)
   \<and> (previous_step_query c = Some p \<and> p \<noteq> [] \<longrightarrow> process_query c = Some p)"
  by (simp add: process_query_def js_or_def truthy_def processResultsStep_execute_def)

theorem empty_previous_query_falls_through_witness:
  "previous_step_query (layered_context None (Some '''') (Some ''trigger'')) = Some []
   \<and> trigger_query (layered_context None (Some '''') (Some ''trigger'')) = Some ''trigger''
   \<and> ''trigger'' \<noteq> []
   \<and> process_query (layered_context None (Some '''') (Some ''trigger'')) = Some ''trigger''
   \<and> processResultsStep_execute env_configured
        (layered_context None (Some '''') (Some ''trigger''))
     = invoke_agent env_configured ''trigger''
   \<and> previous_step_query (layered_context None (Some ''previous'') (Some ''trigger''))
     = Some ''previous''
   \<and> ''previous'' \<noteq> []
   \<and> process_query (layered_context None (Some ''previous'') (Some ''trigger''))
     = Some ''previous''"
proof -
  have a: "previous_step_query (layered_context None (Some '''') (Some ''trigger'')) = Some []"
    by (simp add: previous_step_query_def layered_context_def)
  have b: "trigger_query (layered_context None (Some '''') (Some ''trigger'')) = Some ''trigger''"
    by (simp add: trigger_query_def layered_context_def)
  have d: "previous_step_query (layered_context None (Some ''previous'') (Some ''trigger''))
             = Some ''previous''"
    by (simp add: previous_step_query_def layered_context_def)
  show ?thesis
    using a b d
      empty_previous_query_falls_through
        [of "layered_context None (Some '''') (Some ''trigger'')" "''trigger''" env_configured]
      empty_previous_query_falls_through
        [of "layered_context None (Some ''previous'') (Some ''trigger'')" _ _ "''previous''"]
    by simp
qed

subsection \<open>C9: the lazy initialisers run once\<close>

text \<open>
  Claim C9 says that every call of \<^verbatim>\<open>getMastra\<close> after the first returns the
  identical promise. The function is \<^verbatim>\<open>async\<close>, so each call returns a promise of
  its own: with promise 0 in \<^verbatim>\<open>mastraPromise\<close>, the first call returns promise 1
  and the second promise 2. The same holds when each call is followed to its end.
\<close>

theorem identical_promise_counterexample:
  "loop_mastraPromise (snd (begin_getMastra loop_initial)) = Some 0
   \<and> fst (begin_getMastra loop_initial) = 1
   \<and> fst (begin_getMastra (snd (begin_getMastra loop_initial))) = 2
   \<and> promise_id (fst (getMastra env_configured initial_state)) = 2
   \<and> promise_id (fst (getMastra env_configured (snd (getMastra env_configured initial_state))))
     = 3"
  by (simp add: begin_getMastra_def begin_initializeMastra_def begin_createWebSearchAgent_def
      return_mastra_promise_def loop_initial_def getMastra_def initializeMastra_def
      createWebSearchAgent_def new_promise_def initial_state_def env_configured_def Let_def)

text \<open>
  Claim C9, amended. Lazy initialisation is single-flight. In every sequence of calls of
  the exported functions, settlements of tool provisioning and resumptions of suspended
  calls, from the freshly loaded module: \<^verbatim>\<open>initializeMastra\<close> is called at most
  once, and \<^verbatim>\<open>getWebSearchAgent\<close> calls \<^verbatim>\<open>createWebSearchAgent\<close> at most once;
  a module variable, once set, holds the same promise after any further events; every
  later call of \<^verbatim>\<open>getMastra\<close> (of \<^verbatim>\<open>getWebSearchAgent\<close>) starts no
  initialisation and returns a new promise of its own, made to follow the cached one;
  and every promise so returned is pending or has settled exactly as the promise it
  follows.
\<close>

theorem lazy_initialization_single_flight:
  assumes "s = run_events evs loop_initial" and "s' = run_events evs' s"
  shows "count_list (loop_calls s) Call_initializeMastra \<le> 1
       \<and> count_list (loop_calls s) (Call_createWebSearchAgent From_getWebSearchAgent) \<le> 1
       \<and> (\<forall>m. loop_mastraPromise s = Some m \<longrightarrow>
             loop_mastraPromise s' = Some m
             \<and> m < length (mastra_promises s')
             \<and> begin_getMastra s' =
                 (length (mastra_promises s'),
                  s'\<lparr>mastra_promises := mastra_promises s' @ [Pending],
                     tasks := tasks s' @ [Follow_mastra m (length (mastra_promises s'))]\<rparr>))
       \<and> (\<forall>a. loop_webSearchAgentPromise s = Some a \<longrightarrow>
             loop_webSearchAgentPromise s' = Some a
             \<and> a < length (agent_promises s')
             \<and> begin_getWebSearchAgent s' =
                 (length (agent_promises s'),
                  s'\<lparr>agent_promises := agent_promises s' @ [Pending],
                     tasks := tasks s' @ [Follow_agent a (length (agent_promises s'))]\<rparr>))
       \<and> (\<forall>p w. Follow_mastra p w \<in> set (tasks s) \<longrightarrow> follows (mastra_promises s) p w)
       \<and> (\<forall>p w. Follow_agent p w \<in> set (tasks s) \<longrightarrow> follows (agent_promises s) p w)"
proof -
  have inv: "loop_inv s" unfolding assms(1) by (rule loop_reachable_inv)
  have inv': "loop_inv s'" unfolding assms(2) by (rule loop_inv_run_events [OF inv])
  have c1: "count_list (loop_calls s) Call_initializeMastra \<le> 1"
    using inv by (simp add: loop_inv_def split: option.splits)
  have c2: "count_list (loop_calls s) (Call_createWebSearchAgent From_getWebSearchAgent) \<le> 1"
    using inv by (simp add: loop_inv_def split: option.splits)
  have m: "loop_mastraPromise s' = Some m
             \<and> m < length (mastra_promises s')
             \<and> begin_getMastra s' =
                 (length (mastra_promises s'),
                  s'\<lparr>mastra_promises := mastra_promises s' @ [Pending],
                     tasks := tasks s' @ [Follow_mastra m (length (mastra_promises s'))]\<rparr>)"
    if "loop_mastraPromise s = Some m" for m
  proof -
    have k: "loop_mastraPromise s' = Some m"
      unfolding assms(2) using that by (rule loop_mastraPromise_run_events)
    with inv' have "m < length (mastra_promises s')" by (simp add: loop_inv_def)
    with k show ?thesis by (simp add: begin_getMastra_cached)
  qed
  have a: "loop_webSearchAgentPromise s' = Some a
             \<and> a < length (agent_promises s')
             \<and> begin_getWebSearchAgent s' =
                 (length (agent_promises s'),
                  s'\<lparr>agent_promises := agent_promises s' @ [Pending],
                     tasks := tasks s' @ [Follow_agent a (length (agent_promises s'))]\<rparr>)"
    if "loop_webSearchAgentPromise s = Some a" for a
  proof -
    have k: "loop_webSearchAgentPromise s' = Some a"
      unfolding assms(2) using that by (rule loop_webSearchAgentPromise_run_events)
    with inv' have "a < length (agent_promises s')" by (simp add: loop_inv_def)
    with k show ?thesis by (simp add: begin_getWebSearchAgent_cached)
  qed
  have fm: "\<forall>p w. Follow_mastra p w \<in> set (tasks s) \<longrightarrow> follows (mastra_promises s) p w"
    using inv by (simp add: loop_inv_def)
  have fa: "\<forall>p w. Follow_agent p w \<in> set (tasks s) \<longrightarrow> follows (agent_promises s) p w"
    using inv by (simp add: loop_inv_def)
  from c1 c2 m a fm fa show ?thesis by blast
qed

theorem lazy_initialization_single_flight_witness:
  "loop_mastraPromise (run_events [Invoke GetMastra, Invoke GetMastra] loop_initial) = Some 0
   \<and> Follow_mastra 0 2 \<in> set (tasks (run_events [Invoke GetMastra, Invoke GetMastra] loop_initial))
   \<and> count_list (loop_calls (run_events [Invoke GetMastra, Invoke GetMastra] loop_initial))
        Call_initializeMastra \<le> 1
   \<and> loop_mastraPromise
        (run_events [Tools_settle 0 (Inr []), Resume 0 env_configured, Invoke GetMastra]
           (run_events [Invoke GetMastra, Invoke GetMastra] loop_initial)) = Some 0
   \<and> fst (begin_getMastra
        (run_events [Tools_settle 0 (Inr []), Resume 0 env_configured, Invoke GetMastra]
           (run_events [Invoke GetMastra, Invoke GetMastra] loop_initial)))
     = length (mastra_promises
        (run_events [Tools_settle 0 (Inr []), Resume 0 env_configured, Invoke GetMastra]
           (run_events [Invoke GetMastra, Invoke GetMastra] loop_initial)))
   \<and> follows (mastra_promises (run_events [Invoke GetMastra, Invoke GetMastra] loop_initial)) 0 2"
proof -
  let ?s = "run_events [Invoke GetMastra, Invoke GetMastra] loop_initial"
  let ?s' = "run_events [Tools_settle 0 (Inr []), Resume 0 env_configured, Invoke GetMastra] ?s"
  have h1: "loop_mastraPromise ?s = Some 0"
    by (simp add: run_events_simps begin_getMastra_fresh begin_getMastra_cached loop_initial_def)
  have h2: "Follow_mastra 0 2 \<in> set (tasks ?s)"
    by (simp add: run_events_simps begin_getMastra_fresh begin_getMastra_cached loop_initial_def)
  note t = lazy_initialization_single_flight [OF refl refl,
      of "[Invoke GetMastra, Invoke GetMastra]"
         "[Tools_settle 0 (Inr []), Resume 0 env_configured, Invoke GetMastra]"]
  from t have c: "count_list (loop_calls ?s) Call_initializeMastra \<le> 1" by blast
  from t h1 have k: "loop_mastraPromise ?s' = Some 0" by blast
  from t h1 have "begin_getMastra ?s' =
      (length (mastra_promises ?s'),
       ?s'\<lparr>mastra_promises := mastra_promises ?s' @ [Pending],
           tasks := tasks ?s' @ [Follow_mastra 0 (length (mastra_promises ?s'))]\<rparr>)"
    by blast
  then have g: "fst (begin_getMastra ?s') = length (mastra_promises ?s')"
    by (simp only: fst_conv)
  from t h2 have f: "follows (mastra_promises ?s) 0 2" by blast
  from h1 h2 c k g f show ?thesis by blast
qed

subsection \<open>C10: the search step reads the trigger query only\<close>

text \<open>
  Claim C10. The output of the search step depends only on the trigger data's query:
  two execution contexts in which \<^verbatim>\<open>context.context?.triggerData?.query\<close> is the
  same give the same output, whatever per-step overrides and earlier step results they
  hold, and in whatever environment the step runs.
\<close>

theorem searchStep_depends_only_on_trigger_query:
  assumes "trigger_query c1 = trigger_query c2"
  shows "searchStep_execute c1 = searchStep_execute c2
         \<and> execute searchStep e1 c1 = execute searchStep e2 c2"
  using assms by (simp add: searchStep_execute_def searchStep_def)

theorem searchStep_depends_only_on_trigger_query_witness:
  "trigger_query (layered_context (Some ''osaka'') (Some ''kyoto'') (Some ''tokyo''))
     = trigger_query (layered_context None None (Some ''tokyo''))
   \<and> searchStep_execute (layered_context (Some ''osaka'') (Some ''kyoto'') (Some ''tokyo''))
     = searchStep_execute (layered_context None None (Some ''tokyo''))
   \<and> execute searchStep env_configured
        (layered_context (Some ''osaka'') (Some ''kyoto'') (Some ''tokyo''))
     = execute searchStep env_unconfigured (layered_context None None (Some ''tokyo''))"
proof -
  have h: "trigger_query (layered_context (Some ''osaka'') (Some ''kyoto'') (Some ''tokyo''))
     = trigger_query (layered_context None None (Some ''tokyo''))"
    by (simp add: trigger_query_def layered_context_def)
  from h searchStep_depends_only_on_trigger_query [OF h, of env_configured env_unconfigured]
  show ?thesis by blast
qed

end
